theory Spec2Isabelle
  imports Main "HOL-Library.AList"
begin

section \<open>JavaScript values and plain objects\<close>

text \<open>
  The values that travel through the runtime are the payloads handed to the Admin SDK:
  JSON-like data plus the SDK's \<^verbatim>\<open>FieldValue\<close> sentinels
  (\<^verbatim>\<open>FieldValue.serverTimestamp()\<close>, \<^verbatim>\<open>delete()\<close>,
  \<^verbatim>\<open>increment(n)\<close>, \<^verbatim>\<open>arrayUnion(...)\<close>, \<^verbatim>\<open>arrayRemove(...)\<close>).
  Numbers are taken as integers; no function below does arithmetic on them.
  \<open>JInherited n\<close> is the member of \<^verbatim>\<open>Object.prototype\<close> named \<open>n\<close> (a function, or the
  prototype object itself for \<^verbatim>\<open>__proto__\<close>): a value that is neither \<^verbatim>\<open>undefined\<close> nor
  falsy.
\<close>

datatype jsval =
    JUndefined
  | JNull
  | JBool bool
  | JNum int
  | JStr string
  | JArr "jsval list"
  | JObj "(string \<times> jsval) list"
  | FV_serverTimestamp
  | FV_delete
  | FV_increment int
  | FV_arrayUnion "jsval list"
  | FV_arrayRemove "jsval list"
  | JInherited string

text \<open>
  A plain object is its list of own properties in insertion order. The first binding of a
  key is the property. No statement below depends on the order of the properties.
  \<open>obj_has\<close> is \<^verbatim>\<open>Object.hasOwn(o, k)\<close>, and \<open>obj_get\<close> is the value of the own property
  \<open>k\<close>, \<^verbatim>\<open>undefined\<close> when there is none: what is written to the store when the object is a
  payload.
\<close>

type_synonym jsobj = "(string \<times> jsval) list"

definition obj_get :: "jsobj \<Rightarrow> string \<Rightarrow> jsval" where
  "obj_get obj k = (case map_of obj k of None \<Rightarrow> JUndefined | Some v \<Rightarrow> v)"

definition obj_has :: "string \<Rightarrow> jsobj \<Rightarrow> bool" where
  "obj_has k obj = (map_of obj k \<noteq> None)"

text \<open>
  The program reads with \<^verbatim>\<open>o[k]\<close> and tests with \<^verbatim>\<open>k in o\<close>, and both follow the prototype
  chain. The objects here are object literals and spread copies, whose prototype is
  \<^verbatim>\<open>Object.prototype\<close>: a name that is not an own property still finds the member of
  \<^verbatim>\<open>Object.prototype\<close> of that name, if there is one.
\<close>

definition Object_prototype_names :: "string list" where
  "Object_prototype_names =
     [''constructor'', ''__defineGetter__'', ''__defineSetter__'', ''hasOwnProperty'',
      ''__lookupGetter__'', ''__lookupSetter__'', ''isPrototypeOf'', ''propertyIsEnumerable'',
      ''toString'', ''valueOf'', ''__proto__'', ''toLocaleString'']"

datatype 'a member = Own 'a | Inherited string | Missing

definition js_lookup :: "(string \<times> 'a) list \<Rightarrow> string \<Rightarrow> 'a member" where
  "js_lookup obj k =
     (case map_of obj k of
        Some v \<Rightarrow> Own v
      | None \<Rightarrow> if k \<in> set Object_prototype_names then Inherited k else Missing)"

text \<open>\<^verbatim>\<open>obj[k]\<close> and \<^verbatim>\<open>k in obj\<close> on an object whose property values are JavaScript values.\<close>

definition js_get :: "jsobj \<Rightarrow> string \<Rightarrow> jsval" where
  "js_get obj k =
     (case js_lookup obj k of
        Own v \<Rightarrow> v
      | Inherited n \<Rightarrow> JInherited n
      | Missing \<Rightarrow> JUndefined)"

definition js_in :: "string \<Rightarrow> jsobj \<Rightarrow> bool" where
  "js_in k obj = (js_lookup obj k \<noteq> Missing)"

text \<open>
  \<^verbatim>\<open>obj[k] = v\<close> where \<^verbatim>\<open>obj[k]\<close> read \<^verbatim>\<open>undefined\<close> before, and \<^verbatim>\<open>{...obj, [k]: v}\<close>:
  overwrite the own property in place, or append a new one.
\<close>

definition obj_set :: "jsobj \<Rightarrow> string \<Rightarrow> jsval \<Rightarrow> jsobj" where
  "obj_set obj k v = AList.update k v obj"

definition obj_keys :: "jsobj \<Rightarrow> string list" where
  "obj_keys obj = remdups (map fst obj)"

section \<open>The Admin SDK as seen by the runtime\<close>

text \<open>
  References are paths: \<^verbatim>\<open>firestore.collection(id)\<close>, \<^verbatim>\<open>docRef.collection(id)\<close> and
  \<^verbatim>\<open>collRef.doc(id)\<close>. The \<^verbatim>\<open>id\<close> of a collection reference is its last segment.
\<close>

datatype collref = RootColl string | SubColl docref string
  and docref = DocRef collref string

fun collref_id :: "collref \<Rightarrow> string" where
  "collref_id (RootColl c) = c"
| "collref_id (SubColl d c) = c"

datatype Firestore = Firestore string

datatype sdk_error = SdkError string

text \<open>An asynchronous result: the promise resolves with a value or rejects with the store's error.\<close>

datatype 'a promise = Resolved 'a | Rejected sdk_error

text \<open>A synchronous \<^verbatim>\<open>throw new Error(msg)\<close>.\<close>

datatype js_error = Error string

record DocumentSnapshot =
  snap_exists :: bool
  snap_data :: jsval

type_synonym WriteResult = jsobj

text \<open>
  The store's answers are a parameter: what each asynchronous call of the SDK settles to.
\<close>

record sdk =
  sdk_add :: "collref \<Rightarrow> jsobj \<Rightarrow> docref promise"
  sdk_set :: "docref \<Rightarrow> jsobj \<Rightarrow> jsobj \<Rightarrow> WriteResult promise"
  sdk_delete :: "docref \<Rightarrow> WriteResult promise"
  sdk_get :: "docref \<Rightarrow> DocumentSnapshot promise"
  sdk_update :: "docref \<Rightarrow> jsobj \<Rightarrow> WriteResult promise"

text \<open>Every call the runtime makes on an SDK object is appended to a log, in program order.\<close>

datatype event =
    E_firestore_collection string
  | E_parent_collection docref string
  | E_doc collref string
  | E_add collref jsobj
  | E_set docref jsobj jsobj
  | E_delete docref
  | E_get docref
  | E_update docref jsobj
  | E_console_warn string

type_synonym log = "event list"

section \<open>Schema descriptors\<close>

record FieldSchema =
  defaultValue :: jsval

text \<open>
  \<^verbatim>\<open>collectionClass\<close> is a constructor; it is modelled by its identity, and \<^verbatim>\<open>None\<close>
  stands for a missing (falsy) entry. \<^verbatim>\<open>subCollections\<close> and \<^verbatim>\<open>schema\<close> are optional.
\<close>

datatype ctor = Ctor string

datatype CollectionSchema =
  CollectionSchema
    (fields: "(string \<times> FieldSchema) list")
    (subCollections: "(string \<times> SubCollectionDef) list option")
and SubCollectionDef =
  SubCollectionDef
    (sub_schema: "CollectionSchema option")
    (collectionClass: "ctor option")

section \<open>AdminBaseCollectionRef\<close>

record AdminBaseCollectionRef =
  ref :: collref
  firestore :: Firestore
  collectionId :: string
  schema :: "CollectionSchema option"

text \<open>The constructor resolves the reference through the parent document when one is given.\<close>

definition new_AdminBaseCollectionRef ::
  "Firestore \<Rightarrow> string \<Rightarrow> CollectionSchema option \<Rightarrow> docref option \<Rightarrow> log
     \<Rightarrow> AdminBaseCollectionRef \<times> log" where
  "new_AdminBaseCollectionRef fs cid sch parentRef tr =
     (case parentRef of
        Some p \<Rightarrow>
          (\<lparr>ref = SubColl p cid, firestore = fs, collectionId = cid, schema = sch\<rparr>,
           tr @ [E_parent_collection p cid])
      | None \<Rightarrow>
          (\<lparr>ref = RootColl cid, firestore = fs, collectionId = cid, schema = sch\<rparr>,
           tr @ [E_firestore_collection cid]))"

definition doc :: "AdminBaseCollectionRef \<Rightarrow> string \<Rightarrow> log \<Rightarrow> docref \<times> log" where
  "doc this ident tr = (DocRef (ref this) ident, tr @ [E_doc (ref this) ident])"

text \<open>
  One turn of the \<^verbatim>\<open>for (const fieldName in this.schema.fields)\<close> loop of
  \<^verbatim>\<open>applyDefaults\<close>, with both branches of its \<^verbatim>\<open>if / else if\<close>. The loop visits the own
  keys of \<^verbatim>\<open>fields\<close> (the members of \<^verbatim>\<open>Object.prototype\<close> are not enumerable), so
  \<^verbatim>\<open>fields[fieldName]\<close> is an own entry; the test \<^verbatim>\<open>dataWithDefaults[fieldName] === undefined\<close>
  reads through the prototype chain.
\<close>

definition applyDefaults_step ::
  "(string \<times> FieldSchema) list \<Rightarrow> jsobj \<Rightarrow> string \<Rightarrow> jsobj" where
  "applyDefaults_step flds dataWithDefaults fieldName =
     (case map_of flds fieldName of
        None \<Rightarrow> dataWithDefaults
      | Some fieldDef \<Rightarrow>
          if defaultValue fieldDef = JStr ''serverTimestamp''
             \<and> js_get dataWithDefaults fieldName = JUndefined
          then obj_set dataWithDefaults fieldName FV_serverTimestamp
          else if defaultValue fieldDef \<noteq> JUndefined
             \<and> defaultValue fieldDef \<noteq> JStr ''serverTimestamp''
             \<and> js_get dataWithDefaults fieldName = JUndefined
          then obj_set dataWithDefaults fieldName (defaultValue fieldDef)
          else dataWithDefaults)"

definition applyDefaults :: "AdminBaseCollectionRef \<Rightarrow> jsobj \<Rightarrow> jsobj" where
  "applyDefaults this data =
     (case schema this of
        None \<Rightarrow> data
      | Some sch \<Rightarrow>
          (let flds = CollectionSchema.fields sch
           in foldl (applyDefaults_step flds) data (map fst flds)))"

definition add :: "sdk \<Rightarrow> AdminBaseCollectionRef \<Rightarrow> jsobj \<Rightarrow> log \<Rightarrow> docref promise \<times> log" where
  "add st this data tr =
     (let dataToWrite = applyDefaults this data
      in (sdk_add st (ref this) dataToWrite, tr @ [E_add (ref this) dataToWrite]))"

text \<open>
  \<^verbatim>\<open>options && ('merge' in options && options.merge === true || 'mergeFields' in options)\<close>
\<close>

definition isMerge :: "jsobj option \<Rightarrow> bool" where
  "isMerge options =
     (case options of
        None \<Rightarrow> False
      | Some opts \<Rightarrow>
          (js_in ''merge'' opts \<and> js_get opts ''merge'' = JBool True)
          \<or> js_in ''mergeFields'' opts)"

definition set_doc ::
  "sdk \<Rightarrow> AdminBaseCollectionRef \<Rightarrow> string \<Rightarrow> jsobj \<Rightarrow> jsobj option \<Rightarrow> log
     \<Rightarrow> WriteResult promise \<times> log" where
  "set_doc st this ident data options tr =
     (let (docRef, tr1) = doc this ident tr;
          dataToWrite = (if \<not> isMerge options then applyDefaults this data else data);
          resolved = (case options of None \<Rightarrow> [] | Some opts \<Rightarrow> opts)
      in (sdk_set st docRef dataToWrite resolved, tr1 @ [E_set docRef dataToWrite resolved]))"

definition delete_doc ::
  "sdk \<Rightarrow> AdminBaseCollectionRef \<Rightarrow> string \<Rightarrow> log \<Rightarrow> WriteResult promise \<times> log" where
  "delete_doc st this ident tr =
     (let (docRef, tr1) = doc this ident tr
      in (sdk_delete st docRef, tr1 @ [E_delete docRef]))"

definition get_doc ::
  "sdk \<Rightarrow> AdminBaseCollectionRef \<Rightarrow> string \<Rightarrow> log \<Rightarrow> jsval promise \<times> log" where
  "get_doc st this ident tr =
     (let (docRef, tr1) = doc this ident tr
      in (case sdk_get st docRef of
            Rejected e \<Rightarrow> Rejected e
          | Resolved snapshot \<Rightarrow>
              Resolved (if snap_exists snapshot then snap_data snapshot else JUndefined),
          tr1 @ [E_get docRef]))"

text \<open>
  \<^verbatim>\<open>new ResolvedSubCollectionClass(firestore, subCollectionId, schema, parentRef)\<close>: the
  registered class is generated code outside this package, so the construction is kept
  as the constructor invoked together with the four arguments it receives.
\<close>

record construction =
  new_class :: ctor
  new_firestore :: Firestore
  new_collectionId :: string
  new_schema :: "CollectionSchema option"
  new_parentRef :: docref

text \<open>
  \<^verbatim>\<open>this.schema?.subCollections\<close> followed by \<^verbatim>\<open>[subCollectionId]\<close>: \<open>Missing\<close> when the schema
  or the table is missing, and otherwise the table's own entry or, for a name the table
  does not have, the member of \<^verbatim>\<open>Object.prototype\<close> of that name.
\<close>

definition subCollectionDef_of ::
  "AdminBaseCollectionRef \<Rightarrow> string \<Rightarrow> SubCollectionDef member" where
  "subCollectionDef_of this subCollectionId =
     (case schema this of
        None \<Rightarrow> Missing
      | Some sch \<Rightarrow>
          (case subCollections sch of
             None \<Rightarrow> Missing
           | Some tbl \<Rightarrow> js_lookup tbl subCollectionId))"

text \<open>
  The two template literals of the error messages; \<open>CHR 0x27\<close> is the apostrophe around
  each interpolated name.
\<close>

definition not_found_message :: "string \<Rightarrow> string \<Rightarrow> string" where
  "not_found_message subCollectionId refId =
     ''Sub-collection '' @ [CHR 0x27] @ subCollectionId @ [CHR 0x27]
       @ '' not found in schema for collection '' @ [CHR 0x27] @ refId @ [CHR 0x27]"

definition class_missing_message :: "string \<Rightarrow> string \<Rightarrow> string" where
  "class_missing_message subCollectionId refId =
     ''Collection class definition missing for sub-collection ''
       @ [CHR 0x27] @ subCollectionId @ [CHR 0x27]
       @ '' in schema for collection '' @ [CHR 0x27] @ refId @ [CHR 0x27]"

text \<open>
  Check 1 throws when the looked-up value is falsy, which only \<open>Missing\<close> is. Check 2 reads
  \<^verbatim>\<open>subCollectionDef.collectionClass\<close>, which is \<^verbatim>\<open>undefined\<close> on every member of
  \<^verbatim>\<open>Object.prototype\<close>, so an inherited member fails check 2.
\<close>

definition subCollection ::
  "AdminBaseCollectionRef \<Rightarrow> string \<Rightarrow> string \<Rightarrow> ctor \<Rightarrow> CollectionSchema option \<Rightarrow> log
     \<Rightarrow> (js_error + construction) \<times> log" where
  "subCollection this parentId subCollectionId SubCollectionClass subSchema tr =
     (case subCollectionDef_of this subCollectionId of
        Missing \<Rightarrow>
          (Inl (Error (not_found_message subCollectionId (collref_id (ref this)))), tr)
      | Inherited n \<Rightarrow>
          (Inl (Error (class_missing_message subCollectionId (collref_id (ref this)))), tr)
      | Own subCollectionDef \<Rightarrow>
          (case collectionClass subCollectionDef of
             None \<Rightarrow>
               (Inl (Error (class_missing_message subCollectionId (collref_id (ref this)))), tr)
           | Some ResolvedSubCollectionClass \<Rightarrow>
               (let (parentDocRef, tr1) = doc this parentId tr
                in (Inr \<lparr>new_class = ResolvedSubCollectionClass,
                         new_firestore = firestore this,
                         new_collectionId = subCollectionId,
                         new_schema = sub_schema subCollectionDef,
                         new_parentRef = parentDocRef\<rparr>,
                    tr1))))"

section \<open>Builder instances live in a heap\<close>

text \<open>
  Builders are objects with identity. A heap is the list of allocated objects and an
  address is an index into it; \<^verbatim>\<open>Object.create(Object.getPrototypeOf(this))\<close> followed by
  \<^verbatim>\<open>Object.assign(newBuilder, this)\<close> allocates a new cell holding a shallow copy of
  \<^verbatim>\<open>this\<close>. A method called on an address that was never allocated has no counterpart in
  the program and yields \<^verbatim>\<open>None\<close>.
\<close>

type_synonym addr = nat

definition heap_lookup :: "'a list \<Rightarrow> addr \<Rightarrow> 'a option" where
  "heap_lookup h a = (if a < length h then Some (h ! a) else None)"

definition heap_alloc :: "'a list \<Rightarrow> 'a \<Rightarrow> addr \<times> 'a list" where
  "heap_alloc h obj = (length h, h @ [obj])"

definition heap_modify :: "'a list \<Rightarrow> addr \<Rightarrow> ('a \<Rightarrow> 'a) \<Rightarrow> 'a list" where
  "heap_modify h a f = (if a < length h then h[a := f (h ! a)] else h)"

section \<open>AdminBaseQueryBuilder\<close>

datatype FieldPathArg = FP_string string | FP_FieldPath "string list"

datatype WhereFilterOp =
    Op_lt | Op_le | Op_eq | Op_ne | Op_ge | Op_gt
  | Op_array_contains | Op_in | Op_not_in | Op_array_contains_any

datatype OrderByDirection = Asc | Desc

datatype CursorAnchor = SnapshotAnchor docref jsval | ValueAnchor jsval

datatype LimitType = T_limit | T_limitToLast

datatype CursorType = T_startAt | T_startAfter | T_endAt | T_endBefore

text \<open>
  The discriminated union \<^verbatim>\<open>QueryConstraintDefinition\<close>: each interface is a constructor,
  and the interfaces that share two or four \<^verbatim>\<open>type\<close> tags carry the tag.
\<close>

datatype QueryConstraintDefinition =
    WhereConstraint FieldPathArg WhereFilterOp jsval
  | OrderByConstraint FieldPathArg OrderByDirection
  | LimitConstraint LimitType int
  | CursorConstraint CursorType CursorAnchor "jsval list"

record AdminBaseQueryBuilder =
  qb_firestore :: Firestore
  collectionRef :: collref
  constraintDefinitions :: "QueryConstraintDefinition list"

definition new_AdminBaseQueryBuilder ::
  "AdminBaseQueryBuilder list \<Rightarrow> Firestore \<Rightarrow> collref \<Rightarrow> addr \<times> AdminBaseQueryBuilder list" where
  "new_AdminBaseQueryBuilder h fs cref =
     heap_alloc h \<lparr>qb_firestore = fs, collectionRef = cref, constraintDefinitions = []\<rparr>"

definition addConstraintDefinition ::
  "AdminBaseQueryBuilder list \<Rightarrow> addr \<Rightarrow> QueryConstraintDefinition
     \<Rightarrow> (addr \<times> AdminBaseQueryBuilder list) option" where
  "addConstraintDefinition h this definition =
     (case heap_lookup h this of
        None \<Rightarrow> None
      | Some self \<Rightarrow>
          (let (newBuilder, h1) = heap_alloc h self;
               h2 = heap_modify h1 newBuilder
                      (\<lambda>b. b\<lparr>constraintDefinitions := constraintDefinitions self @ [definition]\<rparr>)
           in Some (newBuilder, h2)))"

definition p_where ::
  "AdminBaseQueryBuilder list \<Rightarrow> addr \<Rightarrow> FieldPathArg \<Rightarrow> WhereFilterOp \<Rightarrow> jsval
     \<Rightarrow> (addr \<times> AdminBaseQueryBuilder list) option" where
  "p_where h this fieldPath opStr v =
     addConstraintDefinition h this (WhereConstraint fieldPath opStr v)"

text \<open>\<^verbatim>\<open>directionStr\<close> has the default \<^verbatim>\<open>'asc'\<close> when the argument is omitted.\<close>

definition orderBy ::
  "AdminBaseQueryBuilder list \<Rightarrow> addr \<Rightarrow> FieldPathArg \<Rightarrow> OrderByDirection option
     \<Rightarrow> (addr \<times> AdminBaseQueryBuilder list) option" where
  "orderBy h this fieldPath directionStr =
     addConstraintDefinition h this
       (OrderByConstraint fieldPath (case directionStr of None \<Rightarrow> Asc | Some d \<Rightarrow> d))"

definition limit ::
  "AdminBaseQueryBuilder list \<Rightarrow> addr \<Rightarrow> int \<Rightarrow> (addr \<times> AdminBaseQueryBuilder list) option" where
  "limit h this limitCount = addConstraintDefinition h this (LimitConstraint T_limit limitCount)"

definition limitToLast ::
  "AdminBaseQueryBuilder list \<Rightarrow> addr \<Rightarrow> int \<Rightarrow> (addr \<times> AdminBaseQueryBuilder list) option" where
  "limitToLast h this limitCount =
     addConstraintDefinition h this (LimitConstraint T_limitToLast limitCount)"

definition startAt ::
  "AdminBaseQueryBuilder list \<Rightarrow> addr \<Rightarrow> CursorAnchor \<Rightarrow> jsval list
     \<Rightarrow> (addr \<times> AdminBaseQueryBuilder list) option" where
  "startAt h this snapshotOrFieldValue fieldValues =
     addConstraintDefinition h this (CursorConstraint T_startAt snapshotOrFieldValue fieldValues)"

definition startAfter ::
  "AdminBaseQueryBuilder list \<Rightarrow> addr \<Rightarrow> CursorAnchor \<Rightarrow> jsval list
     \<Rightarrow> (addr \<times> AdminBaseQueryBuilder list) option" where
  "startAfter h this snapshotOrFieldValue fieldValues =
     addConstraintDefinition h this (CursorConstraint T_startAfter snapshotOrFieldValue fieldValues)"

definition endBefore ::
  "AdminBaseQueryBuilder list \<Rightarrow> addr \<Rightarrow> CursorAnchor \<Rightarrow> jsval list
     \<Rightarrow> (addr \<times> AdminBaseQueryBuilder list) option" where
  "endBefore h this snapshotOrFieldValue fieldValues =
     addConstraintDefinition h this (CursorConstraint T_endBefore snapshotOrFieldValue fieldValues)"

definition endAt ::
  "AdminBaseQueryBuilder list \<Rightarrow> addr \<Rightarrow> CursorAnchor \<Rightarrow> jsval list
     \<Rightarrow> (addr \<times> AdminBaseQueryBuilder list) option" where
  "endAt h this snapshotOrFieldValue fieldValues =
     addConstraintDefinition h this (CursorConstraint T_endAt snapshotOrFieldValue fieldValues)"

text \<open>
  The store's chainable query: every native method returns a new query value. It is
  represented by the collection it starts from and the native calls made so far, each with
  its arguments (the anchor and the spread \<^verbatim>\<open>...fieldValues\<close> for a cursor).
\<close>

datatype native_call =
    N_where FieldPathArg WhereFilterOp jsval
  | N_orderBy FieldPathArg OrderByDirection
  | N_limit int
  | N_limitToLast int
  | N_startAt CursorAnchor "jsval list"
  | N_startAfter CursorAnchor "jsval list"
  | N_endAt CursorAnchor "jsval list"
  | N_endBefore CursorAnchor "jsval list"

record Query =
  q_source :: collref
  q_calls :: "native_call list"

definition native :: "Query \<Rightarrow> native_call \<Rightarrow> Query" where
  "native q c = q\<lparr>q_calls := q_calls q @ [c]\<rparr>"

text \<open>
  The body of the \<^verbatim>\<open>forEach\<close> in \<^verbatim>\<open>buildQuery\<close>: the \<^verbatim>\<open>switch\<close> on \<^verbatim>\<open>def.type\<close>. Its
  \<^verbatim>\<open>default\<close> branch throws for a tag outside the union, which no value of the type has.
\<close>

fun buildQuery_case :: "Query \<Rightarrow> QueryConstraintDefinition \<Rightarrow> Query" where
  "buildQuery_case adminQuery (WhereConstraint fieldPath opStr v) =
     native adminQuery (N_where fieldPath opStr v)"
| "buildQuery_case adminQuery (OrderByConstraint fieldPath directionStr) =
     native adminQuery (N_orderBy fieldPath directionStr)"
| "buildQuery_case adminQuery (LimitConstraint T_limit limitCount) =
     native adminQuery (N_limit limitCount)"
| "buildQuery_case adminQuery (LimitConstraint T_limitToLast limitCount) =
     native adminQuery (N_limitToLast limitCount)"
| "buildQuery_case adminQuery (CursorConstraint T_startAt snapshotOrFieldValue fieldValues) =
     native adminQuery (N_startAt snapshotOrFieldValue fieldValues)"
| "buildQuery_case adminQuery (CursorConstraint T_startAfter snapshotOrFieldValue fieldValues) =
     native adminQuery (N_startAfter snapshotOrFieldValue fieldValues)"
| "buildQuery_case adminQuery (CursorConstraint T_endAt snapshotOrFieldValue fieldValues) =
     native adminQuery (N_endAt snapshotOrFieldValue fieldValues)"
| "buildQuery_case adminQuery (CursorConstraint T_endBefore snapshotOrFieldValue fieldValues) =
     native adminQuery (N_endBefore snapshotOrFieldValue fieldValues)"

definition buildQuery :: "AdminBaseQueryBuilder list \<Rightarrow> addr \<Rightarrow> Query option" where
  "buildQuery h this =
     (case heap_lookup h this of
        None \<Rightarrow> None
      | Some self \<Rightarrow>
          Some (foldl buildQuery_case \<lparr>q_source = collectionRef self, q_calls = []\<rparr>
                  (constraintDefinitions self)))"

text \<open>A call of one of the constraint-adding methods, and a chain of such calls.\<close>

datatype query_call =
    Call_where FieldPathArg WhereFilterOp jsval
  | Call_orderBy FieldPathArg "OrderByDirection option"
  | Call_limit int
  | Call_limitToLast int
  | Call_startAt CursorAnchor "jsval list"
  | Call_startAfter CursorAnchor "jsval list"
  | Call_endBefore CursorAnchor "jsval list"
  | Call_endAt CursorAnchor "jsval list"

fun call_query_method ::
  "AdminBaseQueryBuilder list \<Rightarrow> addr \<Rightarrow> query_call
     \<Rightarrow> (addr \<times> AdminBaseQueryBuilder list) option" where
  "call_query_method h b (Call_where f opStr v) = p_where h b f opStr v"
| "call_query_method h b (Call_orderBy f d) = orderBy h b f d"
| "call_query_method h b (Call_limit n) = limit h b n"
| "call_query_method h b (Call_limitToLast n) = limitToLast h b n"
| "call_query_method h b (Call_startAt a vs) = startAt h b a vs"
| "call_query_method h b (Call_startAfter a vs) = startAfter h b a vs"
| "call_query_method h b (Call_endBefore a vs) = endBefore h b a vs"
| "call_query_method h b (Call_endAt a vs) = endAt h b a vs"

fun query_chain ::
  "AdminBaseQueryBuilder list \<Rightarrow> addr \<Rightarrow> query_call list
     \<Rightarrow> (addr \<times> AdminBaseQueryBuilder list) option" where
  "query_chain h b [] = Some (b, h)"
| "query_chain h b (c # cs) =
     (case call_query_method h b c of
        None \<Rightarrow> None
      | Some (b', h') \<Rightarrow> query_chain h' b' cs)"

section \<open>AdminBaseUpdateBuilder\<close>

text \<open>
  The protected members \<^verbatim>\<open>_docRef\<close>, \<^verbatim>\<open>_updateData\<close>, \<^verbatim>\<open>_set\<close>, \<^verbatim>\<open>_increment\<close>, ...
  are written with the prefix \<open>p_\<close>.
\<close>

record AdminBaseUpdateBuilder =
  p_docRef :: docref
  p_updateData :: jsobj

definition new_AdminBaseUpdateBuilder ::
  "AdminBaseUpdateBuilder list \<Rightarrow> docref \<Rightarrow> addr \<times> AdminBaseUpdateBuilder list" where
  "new_AdminBaseUpdateBuilder h docRef = heap_alloc h \<lparr>p_docRef = docRef, p_updateData = []\<rparr>"

text \<open>\<^verbatim>\<open>newBuilder._updateData = { ...this._updateData, [fieldPath]: value }\<close>\<close>

definition p_set ::
  "AdminBaseUpdateBuilder list \<Rightarrow> addr \<Rightarrow> string \<Rightarrow> jsval
     \<Rightarrow> (addr \<times> AdminBaseUpdateBuilder list) option" where
  "p_set h this fieldPath v =
     (case heap_lookup h this of
        None \<Rightarrow> None
      | Some self \<Rightarrow>
          (let (newBuilder, h1) = heap_alloc h self;
               h2 = heap_modify h1 newBuilder
                      (\<lambda>b. b\<lparr>p_updateData := obj_set (p_updateData self) fieldPath v\<rparr>)
           in Some (newBuilder, h2)))"

definition getIncrementFieldValue :: "int \<Rightarrow> jsval" where
  "getIncrementFieldValue n = FV_increment n"

definition getArrayUnionFieldValue :: "jsval list \<Rightarrow> jsval" where
  "getArrayUnionFieldValue vs = FV_arrayUnion vs"

definition getArrayRemoveFieldValue :: "jsval list \<Rightarrow> jsval" where
  "getArrayRemoveFieldValue vs = FV_arrayRemove vs"

definition getServerTimestampFieldValue :: jsval where
  "getServerTimestampFieldValue = FV_serverTimestamp"

definition getDeleteFieldValue :: jsval where
  "getDeleteFieldValue = FV_delete"

definition p_increment ::
  "AdminBaseUpdateBuilder list \<Rightarrow> addr \<Rightarrow> string \<Rightarrow> int
     \<Rightarrow> (addr \<times> AdminBaseUpdateBuilder list) option" where
  "p_increment h this fieldPath n = p_set h this fieldPath (getIncrementFieldValue n)"

definition p_arrayUnion ::
  "AdminBaseUpdateBuilder list \<Rightarrow> addr \<Rightarrow> string \<Rightarrow> jsval list
     \<Rightarrow> (addr \<times> AdminBaseUpdateBuilder list) option" where
  "p_arrayUnion h this fieldPath vs = p_set h this fieldPath (getArrayUnionFieldValue vs)"

definition p_arrayRemove ::
  "AdminBaseUpdateBuilder list \<Rightarrow> addr \<Rightarrow> string \<Rightarrow> jsval list
     \<Rightarrow> (addr \<times> AdminBaseUpdateBuilder list) option" where
  "p_arrayRemove h this fieldPath vs = p_set h this fieldPath (getArrayRemoveFieldValue vs)"

definition p_serverTimestamp ::
  "AdminBaseUpdateBuilder list \<Rightarrow> addr \<Rightarrow> string
     \<Rightarrow> (addr \<times> AdminBaseUpdateBuilder list) option" where
  "p_serverTimestamp h this fieldPath = p_set h this fieldPath getServerTimestampFieldValue"

definition p_deleteField ::
  "AdminBaseUpdateBuilder list \<Rightarrow> addr \<Rightarrow> string
     \<Rightarrow> (addr \<times> AdminBaseUpdateBuilder list) option" where
  "p_deleteField h this fieldPath = p_set h this fieldPath getDeleteFieldValue"

text \<open>
  \<^verbatim>\<open>commit\<close>: with no own key in \<^verbatim>\<open>_updateData\<close> it warns on the console and resolves with
  the placeholder \<^verbatim>\<open>{}\<close>; otherwise it returns what \<^verbatim>\<open>this._docRef.update\<close> returns.
\<close>

definition commit ::
  "sdk \<Rightarrow> AdminBaseUpdateBuilder list \<Rightarrow> addr \<Rightarrow> log \<Rightarrow> (WriteResult promise \<times> log) option" where
  "commit st h this tr =
     (case heap_lookup h this of
        None \<Rightarrow> None
      | Some self \<Rightarrow>
          Some (if length (obj_keys (p_updateData self)) = 0
                then (Resolved [],
                      tr @ [E_console_warn ''Update commit called with no changes specified.''])
                else (sdk_update st (p_docRef self) (p_updateData self),
                      tr @ [E_update (p_docRef self) (p_updateData self)])))"

text \<open>A call of one of the operation-adding methods, and a chain of such calls.\<close>

datatype update_call =
    Call_set string jsval
  | Call_increment string int
  | Call_arrayUnion string "jsval list"
  | Call_arrayRemove string "jsval list"
  | Call_serverTimestamp string
  | Call_deleteField string

fun call_update_method ::
  "AdminBaseUpdateBuilder list \<Rightarrow> addr \<Rightarrow> update_call
     \<Rightarrow> (addr \<times> AdminBaseUpdateBuilder list) option" where
  "call_update_method h b (Call_set p v) = p_set h b p v"
| "call_update_method h b (Call_increment p n) = p_increment h b p n"
| "call_update_method h b (Call_arrayUnion p vs) = p_arrayUnion h b p vs"
| "call_update_method h b (Call_arrayRemove p vs) = p_arrayRemove h b p vs"
| "call_update_method h b (Call_serverTimestamp p) = p_serverTimestamp h b p"
| "call_update_method h b (Call_deleteField p) = p_deleteField h b p"

fun update_chain ::
  "AdminBaseUpdateBuilder list \<Rightarrow> addr \<Rightarrow> update_call list
     \<Rightarrow> (addr \<times> AdminBaseUpdateBuilder list) option" where
  "update_chain h b [] = Some (b, h)"
| "update_chain h b (c # cs) =
     (case call_update_method h b c of
        None \<Rightarrow> None
      | Some (b', h') \<Rightarrow> update_chain h' b' cs)"

section \<open>Auxiliary definitions for the statements\<close>

text \<open>
  The value the loop of \<^verbatim>\<open>applyDefaults\<close> stores for a field whose payload value is
  \<^verbatim>\<open>undefined\<close>: the server-timestamp sentinel for the marker, the literal otherwise.
\<close>

definition installed :: "FieldSchema \<Rightarrow> jsval" where
  "installed fd =
     (if defaultValue fd = JStr ''serverTimestamp'' then FV_serverTimestamp else defaultValue fd)"

text \<open>
  The specification's notion of a merge request for \<^verbatim>\<open>set\<close>: options are given, and the
  merge flag is \<^verbatim>\<open>true\<close> or a list of fields is present under \<^verbatim>\<open>mergeFields\<close>.
\<close>

definition requests_merge :: "jsobj option \<Rightarrow> bool" where
  "requests_merge options =
     (case options of
        None \<Rightarrow> False
      | Some opts \<Rightarrow>
          obj_get opts ''merge'' = JBool True
          \<or> (case obj_get opts ''mergeFields'' of JArr fieldList \<Rightarrow> True | _ \<Rightarrow> False))"

text \<open>The descriptor each constraint-adding method hands to \<^verbatim>\<open>addConstraintDefinition\<close>.\<close>

fun definition_of :: "query_call \<Rightarrow> QueryConstraintDefinition" where
  "definition_of (Call_where f opStr v) = WhereConstraint f opStr v"
| "definition_of (Call_orderBy f d) = OrderByConstraint f (case d of None \<Rightarrow> Asc | Some x \<Rightarrow> x)"
| "definition_of (Call_limit n) = LimitConstraint T_limit n"
| "definition_of (Call_limitToLast n) = LimitConstraint T_limitToLast n"
| "definition_of (Call_startAt a vs) = CursorConstraint T_startAt a vs"
| "definition_of (Call_startAfter a vs) = CursorConstraint T_startAfter a vs"
| "definition_of (Call_endBefore a vs) = CursorConstraint T_endBefore a vs"
| "definition_of (Call_endAt a vs) = CursorConstraint T_endAt a vs"

text \<open>
  The native call the specification expects for a constraint-adding call: the native
  method of the same kind, with the same arguments (\<^verbatim>\<open>'asc'\<close> when \<^verbatim>\<open>orderBy\<close> is called
  without a direction).
\<close>

fun expected_native_call :: "query_call \<Rightarrow> native_call" where
  "expected_native_call (Call_where f opStr v) = N_where f opStr v"
| "expected_native_call (Call_orderBy f None) = N_orderBy f Asc"
| "expected_native_call (Call_orderBy f (Some d)) = N_orderBy f d"
| "expected_native_call (Call_limit n) = N_limit n"
| "expected_native_call (Call_limitToLast n) = N_limitToLast n"
| "expected_native_call (Call_startAt a vs) = N_startAt a vs"
| "expected_native_call (Call_startAfter a vs) = N_startAfter a vs"
| "expected_native_call (Call_endBefore a vs) = N_endBefore a vs"
| "expected_native_call (Call_endAt a vs) = N_endAt a vs"

text \<open>
  The field path an operation-adding call writes to, and the value or sentinel the
  specification expects to be recorded for it.
\<close>

fun path_of :: "update_call \<Rightarrow> string" where
  "path_of (Call_set p v) = p"
| "path_of (Call_increment p n) = p"
| "path_of (Call_arrayUnion p vs) = p"
| "path_of (Call_arrayRemove p vs) = p"
| "path_of (Call_serverTimestamp p) = p"
| "path_of (Call_deleteField p) = p"

fun recorded_value :: "update_call \<Rightarrow> jsval" where
  "recorded_value (Call_set p v) = v"
| "recorded_value (Call_increment p n) = FV_increment n"
| "recorded_value (Call_arrayUnion p vs) = FV_arrayUnion vs"
| "recorded_value (Call_arrayRemove p vs) = FV_arrayRemove vs"
| "recorded_value (Call_serverTimestamp p) = FV_serverTimestamp"
| "recorded_value (Call_deleteField p) = FV_delete"

definition record_op :: "jsobj \<Rightarrow> update_call \<Rightarrow> jsobj" where
  "record_op u c = obj_set u (path_of c) (recorded_value c)"

text \<open>The calls of the document's \<^verbatim>\<open>update\<close> method in a log, in order.\<close>

fun update_of :: "event \<Rightarrow> (docref \<times> jsobj) option" where
  "update_of (E_update d u) = Some (d, u)"
| "update_of _ = None"

definition update_calls :: "log \<Rightarrow> (docref \<times> jsobj) list" where
  "update_calls tr = List.map_filter update_of tr"

section \<open>Concrete inputs\<close>

text \<open>
  A schema with three defaults (a string, a number and the server-timestamp marker) and a
  sub-collection table with one complete entry and one entry without a constructor; a
  collection handle on it; a store that knows one document and fails on another; a
  payload with an explicit \<^verbatim>\<open>null\<close>; three builder objects; and a handle whose schema
  gives the server-timestamp default to a field named \<^verbatim>\<open>toString\<close>.
\<close>

definition demo_schema :: CollectionSchema where
  "demo_schema =
     CollectionSchema
       [(''status'', \<lparr>defaultValue = JStr ''inactive''\<rparr>),
        (''score'', \<lparr>defaultValue = JNum 0\<rparr>),
        (''createdAt'', \<lparr>defaultValue = JStr ''serverTimestamp''\<rparr>)]
       (Some [(''posts'', SubCollectionDef None (Some (Ctor ''PostsCollection''))),
              (''drafts'', SubCollectionDef None None)])"

definition demo_handle :: AdminBaseCollectionRef where
  "demo_handle =
     \<lparr>ref = RootColl ''users'', firestore = Firestore ''demo'', collectionId = ''users'',
      schema = Some demo_schema\<rparr>"

definition demo_sdk :: sdk where
  "demo_sdk =
     \<lparr>sdk_add = (\<lambda>c d. Resolved (DocRef c ''auto-id'')),
      sdk_set = (\<lambda>d data opts. Resolved [(''writeTime'', JNum 1)]),
      sdk_delete = (\<lambda>d. Resolved [(''writeTime'', JNum 1)]),
      sdk_get = (\<lambda>d. if d = DocRef (RootColl ''users'') ''alice''
                      then Resolved \<lparr>snap_exists = True, snap_data = JObj [(''name'', JStr ''x'')]\<rparr>
                      else if d = DocRef (RootColl ''users'') ''down''
                      then Rejected (SdkError ''unavailable'')
                      else Resolved \<lparr>snap_exists = False, snap_data = JUndefined\<rparr>),
      sdk_update = (\<lambda>d data. Resolved [(''writeTime'', JNum 1)])\<rparr>"

definition demo_payload :: jsobj where
  "demo_payload = [(''name'', JStr ''x''), (''status'', JNull)]"

definition demo_query_builder :: AdminBaseQueryBuilder where
  "demo_query_builder =
     \<lparr>qb_firestore = Firestore ''demo'', collectionRef = RootColl ''users'',
      constraintDefinitions = [WhereConstraint (FP_string ''age'') Op_ge (JNum 18)]\<rparr>"

definition demo_update_builder :: AdminBaseUpdateBuilder where
  "demo_update_builder =
     \<lparr>p_docRef = DocRef (RootColl ''users'') ''u1'', p_updateData = [(''count'', JNum 1)]\<rparr>"

definition demo_empty_update_builder :: AdminBaseUpdateBuilder where
  "demo_empty_update_builder =
     \<lparr>p_docRef = DocRef (RootColl ''users'') ''u1'', p_updateData = []\<rparr>"

definition demo_proto_schema :: CollectionSchema where
  "demo_proto_schema =
     CollectionSchema [(''toString'', \<lparr>defaultValue = JStr ''serverTimestamp''\<rparr>)] None"

definition demo_proto_handle :: AdminBaseCollectionRef where
  "demo_proto_handle =
     \<lparr>ref = RootColl ''notes'', firestore = Firestore ''demo'', collectionId = ''notes'',
      schema = Some demo_proto_schema\<rparr>"

section \<open>Objects and default values\<close>

lemma obj_get_simps:
  "obj_get [] k = JUndefined"
  "obj_get ((a, v) # obj) k = (if k = a then v else obj_get obj k)"
  by (simp_all add: obj_get_def)

lemma obj_has_simps:
  "obj_has k [] = False"
  "obj_has k ((a, v) # obj) = (k = a \<or> obj_has k obj)"
  by (auto simp: obj_has_def)

lemma js_get_simps:
  "js_get [] k = (if k \<in> set Object_prototype_names then JInherited k else JUndefined)"
  "js_get ((a, v) # obj) k = (if k = a then v else js_get obj k)"
  by (simp_all add: js_get_def js_lookup_def)


lemma js_get_undefined: "js_get obj k = JUndefined \<Longrightarrow> obj_get obj k = JUndefined"
  by (auto simp: js_get_def js_lookup_def obj_get_def split: option.splits if_splits)

lemma js_get_own: "obj_get obj k \<noteq> JUndefined \<Longrightarrow> js_get obj k = obj_get obj k"
  by (auto simp: js_get_def js_lookup_def obj_get_def split: option.splits)


lemma obj_get_obj_set: "obj_get (obj_set d k v) j = (if j = k then v else obj_get d j)"
  by (simp add: obj_get_def obj_set_def update_conv')

lemma js_get_obj_set: "js_get (obj_set d k v) j = (if j = k then v else js_get d j)"
  by (simp add: js_get_def js_lookup_def obj_set_def update_conv')

lemma obj_has_obj_set: "obj_has j (obj_set d k v) = (j = k \<or> obj_has j d)"
  by (simp add: obj_has_def obj_set_def update_conv')

lemma step_get:
  "obj_get (applyDefaults_step flds d k) j =
     (if j = k \<and> js_get d k = JUndefined
      then (case map_of flds k of None \<Rightarrow> JUndefined | Some fd \<Rightarrow> installed fd)
      else obj_get d j)"
  by (auto simp: applyDefaults_step_def obj_get_obj_set installed_def js_get_undefined
           split: option.splits)

lemma step_js_get:
  "js_get (applyDefaults_step flds d k) j =
     (if j = k \<and> js_get d k = JUndefined
      then (case map_of flds k of None \<Rightarrow> JUndefined | Some fd \<Rightarrow> installed fd)
      else js_get d j)"
  by (auto simp: applyDefaults_step_def js_get_obj_set installed_def split: option.splits)

lemma step_has: "obj_has j d \<Longrightarrow> obj_has j (applyDefaults_step flds d k)"
  by (auto simp: applyDefaults_step_def obj_has_obj_set split: option.splits)

lemma loop_js_get:
  "js_get (foldl (applyDefaults_step flds) d ks) j =
     (if j \<in> set ks \<and> js_get d j = JUndefined
      then (case map_of flds j of None \<Rightarrow> JUndefined | Some fd \<Rightarrow> installed fd)
      else js_get d j)"
proof (induction ks arbitrary: d)
  case Nil
  then show ?case by simp
next
  case (Cons k ks)
  show ?case
    by (auto simp add: Cons.IH step_js_get split: option.splits)
qed

lemma loop_get:
  "obj_get (foldl (applyDefaults_step flds) d ks) j =
     (if j \<in> set ks \<and> js_get d j = JUndefined
      then (case map_of flds j of None \<Rightarrow> JUndefined | Some fd \<Rightarrow> installed fd)
      else obj_get d j)"
proof (induction ks arbitrary: d)
  case Nil
  then show ?case by simp
next
  case (Cons k ks)
  show ?case
    by (auto simp add: Cons.IH step_get step_js_get js_get_undefined split: option.splits)
qed

lemma loop_has: "obj_has j d \<Longrightarrow> obj_has j (foldl (applyDefaults_step flds) d ks)"
  by (induction ks arbitrary: d) (simp_all add: step_has)

lemma applyDefaults_get:
  "obj_get (applyDefaults this data) j =
     (if js_get data j = JUndefined
      then (case schema this of
              None \<Rightarrow> JUndefined
            | Some sch \<Rightarrow>
                (case map_of (CollectionSchema.fields sch) j of
                   None \<Rightarrow> JUndefined
                 | Some fd \<Rightarrow> installed fd))
      else obj_get data j)"
  by (auto simp: applyDefaults_def loop_get Let_def map_of_eq_None_iff js_get_undefined
           split: option.splits dest: map_of_SomeD intro: rev_image_eqI)

lemma applyDefaults_has: "obj_has j data \<Longrightarrow> obj_has j (applyDefaults this data)"
  by (simp add: applyDefaults_def loop_has Let_def split: option.splits)

lemma applyDefaults_changed:
  assumes "obj_get (applyDefaults this data) k \<noteq> obj_get data k"
  shows "obj_get data k = JUndefined"
    and "\<exists>sch fieldDef.
              schema this = Some sch
              \<and> map_of (CollectionSchema.fields sch) k = Some fieldDef
              \<and> defaultValue fieldDef \<noteq> JUndefined
              \<and> obj_get (applyDefaults this data) k =
                  (if defaultValue fieldDef = JStr ''serverTimestamp''
                   then FV_serverTimestamp else defaultValue fieldDef)"
proof -
  have j: "js_get data k = JUndefined"
  proof (rule ccontr)
    assume "js_get data k \<noteq> JUndefined"
    then have "obj_get (applyDefaults this data) k = obj_get data k"
      by (simp add: applyDefaults_get)
    with assms show False by simp
  qed
  then show u: "obj_get data k = JUndefined" by (rule js_get_undefined)
  from assms u have ne: "obj_get (applyDefaults this data) k \<noteq> JUndefined" by simp
  obtain sch where sch: "schema this = Some sch"
    using ne j by (cases "schema this") (simp_all add: applyDefaults_get)
  obtain fieldDef where fd: "map_of (CollectionSchema.fields sch) k = Some fieldDef"
    using ne j sch
    by (cases "map_of (CollectionSchema.fields sch) k") (simp_all add: applyDefaults_get)
  have val: "obj_get (applyDefaults this data) k = installed fieldDef"
    using j sch fd by (simp add: applyDefaults_get)
  with ne have "defaultValue fieldDef \<noteq> JUndefined"
    by (auto simp: installed_def split: if_splits)
  with sch fd val show "\<exists>sch fieldDef.
              schema this = Some sch
              \<and> map_of (CollectionSchema.fields sch) k = Some fieldDef
              \<and> defaultValue fieldDef \<noteq> JUndefined
              \<and> obj_get (applyDefaults this data) k =
                  (if defaultValue fieldDef = JStr ''serverTimestamp''
                   then FV_serverTimestamp else defaultValue fieldDef)"
    unfolding installed_def by blast
qed

lemma not_inherited:
  "''merge'' \<notin> set Object_prototype_names"
  "''mergeFields'' \<notin> set Object_prototype_names"
  "''status'' \<notin> set Object_prototype_names"
  "''score'' \<notin> set Object_prototype_names"
  "''createdAt'' \<notin> set Object_prototype_names"
  "''comments'' \<notin> set Object_prototype_names"
  by (simp_all add: Object_prototype_names_def)

lemma inherited:
  "''toString'' \<in> set Object_prototype_names"
  "''constructor'' \<in> set Object_prototype_names"
  by (simp_all add: Object_prototype_names_def)

lemma isMerge_eq:
  "isMerge options =
     (case options of
        None \<Rightarrow> False
      | Some opts \<Rightarrow> obj_get opts ''merge'' = JBool True \<or> obj_has ''mergeFields'' opts)"
  by (auto simp: isMerge_def js_in_def js_get_def js_lookup_def obj_get_def obj_has_def
                 not_inherited split: option.splits)

lemma requests_merge_isMerge: "requests_merge options \<Longrightarrow> isMerge options"
  by (auto simp: isMerge_eq requests_merge_def obj_get_def obj_has_def
           split: option.splits jsval.splits)

lemma demo_table:
  "schema demo_handle = Some demo_schema"
  "subCollections demo_schema =
     Some [(''posts'', SubCollectionDef None (Some (Ctor ''PostsCollection''))),
           (''drafts'', SubCollectionDef None None)]"
  by (simp_all add: demo_handle_def demo_schema_def)

lemma subCollection_Missing:
  "subCollectionDef_of this subCollectionId = Missing \<Longrightarrow>
   subCollection this parentId subCollectionId SubCollectionClass subSchema tr =
     (Inl (Error (not_found_message subCollectionId (collref_id (ref this)))), tr)"
  by (simp add: subCollection_def)

lemma subCollection_Inherited:
  "subCollectionDef_of this subCollectionId = Inherited n \<Longrightarrow>
   subCollection this parentId subCollectionId SubCollectionClass subSchema tr =
     (Inl (Error (class_missing_message subCollectionId (collref_id (ref this)))), tr)"
  by (simp add: subCollection_def)

lemma subCollection_Own:
  "subCollectionDef_of this subCollectionId = Own d \<Longrightarrow>
   subCollection this parentId subCollectionId SubCollectionClass subSchema tr =
     (case collectionClass d of
        None \<Rightarrow> (Inl (Error (class_missing_message subCollectionId (collref_id (ref this)))), tr)
      | Some C \<Rightarrow>
          (Inr \<lparr>new_class = C, new_firestore = firestore this,
                new_collectionId = subCollectionId, new_schema = sub_schema d,
                new_parentRef = DocRef (ref this) parentId\<rparr>,
           tr @ [E_doc (ref this) parentId]))"
  by (simp add: subCollection_def doc_def split: option.splits)

section \<open>The heap and the builder chains\<close>

lemma heap_lookup_append:
  "heap_lookup (h @ [x]) a = (if a = length h then Some x else heap_lookup h a)"
  by (auto simp: heap_lookup_def nth_append)

lemma heap_lookup_valid: "heap_lookup h a = Some x \<Longrightarrow> a < length h"
  by (simp add: heap_lookup_def split: if_splits)

lemma heap_clone_modify:
  "heap_modify (h @ [x]) (length h) f = h @ [f x]"
  by (simp add: heap_modify_def)

lemma addConstraintDefinition_Some:
  "heap_lookup h this = Some self \<Longrightarrow>
   addConstraintDefinition h this d =
     Some (length h, h @ [self\<lparr>constraintDefinitions := constraintDefinitions self @ [d]\<rparr>])"
  by (simp add: addConstraintDefinition_def heap_alloc_def heap_clone_modify)

lemma call_query_method_eq:
  "call_query_method h b c = addConstraintDefinition h b (definition_of c)"
  by (cases c)
     (simp_all add: p_where_def orderBy_def limit_def limitToLast_def startAt_def
        startAfter_def endBefore_def endAt_def)

lemma query_chain_result:
  "heap_lookup h b = Some self \<Longrightarrow>
   \<exists>b' h'. query_chain h b cs = Some (b', h')
     \<and> heap_lookup h' b' =
         Some (self\<lparr>constraintDefinitions := constraintDefinitions self @ map definition_of cs\<rparr>)"
proof (induction cs arbitrary: h b self)
  case Nil
  then show ?case by simp
next
  case (Cons c cs)
  let ?self' = "self\<lparr>constraintDefinitions := constraintDefinitions self @ [definition_of c]\<rparr>"
  let ?h' = "h @ [?self']"
  from Cons.prems have step: "call_query_method h b c = Some (length h, ?h')"
    by (simp add: call_query_method_eq addConstraintDefinition_Some)
  have "heap_lookup ?h' (length h) = Some ?self'"
    by (simp add: heap_lookup_append)
  from Cons.IH [OF this] obtain b' h' where
    "query_chain ?h' (length h) cs = Some (b', h')"
    "heap_lookup h' b' =
       Some (?self'\<lparr>constraintDefinitions := constraintDefinitions ?self' @ map definition_of cs\<rparr>)"
    by blast
  with step show ?case by simp
qed

lemma buildQuery_case_native:
  "buildQuery_case q (definition_of c) = native q (expected_native_call c)"
  by (cases c) (simp_all split: option.splits)

lemma replay:
  "foldl buildQuery_case q (map definition_of cs) =
     q\<lparr>q_calls := q_calls q @ map expected_native_call cs\<rparr>"
proof (induction cs arbitrary: q)
  case Nil
  then show ?case by simp
next
  case (Cons c cs)
  show ?case by (simp add: Cons.IH buildQuery_case_native native_def)
qed

lemma p_set_Some:
  "heap_lookup h this = Some self \<Longrightarrow>
   p_set h this fieldPath v =
     Some (length h, h @ [self\<lparr>p_updateData := obj_set (p_updateData self) fieldPath v\<rparr>])"
  by (simp add: p_set_def heap_alloc_def heap_clone_modify)

lemma call_update_method_eq:
  "call_update_method h b c = p_set h b (path_of c) (recorded_value c)"
  by (cases c)
     (simp_all add: p_increment_def p_arrayUnion_def p_arrayRemove_def p_serverTimestamp_def
        p_deleteField_def getIncrementFieldValue_def getArrayUnionFieldValue_def
        getArrayRemoveFieldValue_def getServerTimestampFieldValue_def getDeleteFieldValue_def)

lemma update_chain_result:
  "heap_lookup h b = Some self \<Longrightarrow>
   \<exists>b' h'. update_chain h b cs = Some (b', h')
     \<and> heap_lookup h' b' = Some (self\<lparr>p_updateData := foldl record_op (p_updateData self) cs\<rparr>)"
proof (induction cs arbitrary: h b self)
  case Nil
  then show ?case by simp
next
  case (Cons c cs)
  let ?self' = "self\<lparr>p_updateData := record_op (p_updateData self) c\<rparr>"
  let ?h' = "h @ [?self']"
  from Cons.prems have step: "call_update_method h b c = Some (length h, ?h')"
    by (simp add: call_update_method_eq p_set_Some record_op_def)
  have "heap_lookup ?h' (length h) = Some ?self'"
    by (simp add: heap_lookup_append)
  from Cons.IH [OF this] obtain b' h' where
    "update_chain ?h' (length h) cs = Some (b', h')"
    "heap_lookup h' b' = Some (?self'\<lparr>p_updateData := foldl record_op (p_updateData ?self') cs\<rparr>)"
    by blast
  with step show ?case by simp
qed

lemma record_ops_distinct:
  "distinct (map fst u) \<Longrightarrow> distinct (map fst (foldl record_op u cs))"
  by (induction cs arbitrary: u) (simp_all add: record_op_def obj_set_def distinct_update)

lemma record_ops_keys:
  "fst ` set (foldl record_op u cs) = fst ` set u \<union> path_of ` set cs"
  by (induction cs arbitrary: u) (auto simp: record_op_def obj_set_def dom_update)

lemma record_ops_other:
  "\<forall>c \<in> set cs. path_of c \<noteq> k \<Longrightarrow> map_of (foldl record_op u cs) k = map_of u k"
  by (induction cs arbitrary: u) (auto simp: record_op_def obj_set_def update_conv')

lemma record_ops_last:
  assumes "cs = pre @ c # post" and "\<forall>c' \<in> set post. path_of c' \<noteq> path_of c"
  shows "map_of (foldl record_op u cs) (path_of c) = Some (recorded_value c)"
proof -
  have "foldl record_op u cs = foldl record_op (record_op (foldl record_op u pre) c) post"
    using assms(1) by simp
  then have "map_of (foldl record_op u cs) (path_of c)
               = map_of (record_op (foldl record_op u pre) c) (path_of c)"
    using assms(2) by (simp add: record_ops_other)
  then show ?thesis by (simp add: record_op_def obj_set_def update_conv')
qed

lemma commit_Some:
  "heap_lookup h b = Some self \<Longrightarrow>
   commit st h b tr =
     Some (if p_updateData self = []
           then (Resolved [], tr @ [E_console_warn ''Update commit called with no changes specified.''])
           else (sdk_update st (p_docRef self) (p_updateData self),
                 tr @ [E_update (p_docRef self) (p_updateData self)]))"
  by (simp add: commit_def obj_keys_def)

lemma update_calls_append: "update_calls (tr @ tr') = update_calls tr @ update_calls tr'"
  by (simp add: update_calls_def map_filter_def)

lemma update_calls_single:
  "update_calls [E_update d u] = [(d, u)]"
  "update_calls [E_console_warn s] = []"
  by (simp_all add: update_calls_def map_filter_def)

section \<open>The collection handle\<close>

text \<open>
  C1, as stated: a field that is present in the payload reaches the write unchanged, and a
  default is assigned only to a field that is absent. This fails for a field that is
  present and holds \<^verbatim>\<open>undefined\<close>: the guard of \<^verbatim>\<open>applyDefaults\<close> is
  \<^verbatim>\<open>dataWithDefaults[fieldName] === undefined\<close>, which is also true of such a field. With the
  payload \<^verbatim>\<open>{name: 'x', status: undefined}\<close> the field \<^verbatim>\<open>status\<close> is present, and \<^verbatim>\<open>add\<close>
  writes \<^verbatim>\<open>status: 'inactive'\<close>.
\<close>

theorem applyDefaults_overwrites_explicit_undefined:
  "obj_has ''status'' [(''name'', JStr ''x''), (''status'', JUndefined)]
   \<and> obj_get (applyDefaults demo_handle [(''name'', JStr ''x''), (''status'', JUndefined)]) ''status''
       \<noteq> obj_get [(''name'', JStr ''x''), (''status'', JUndefined)] ''status''
   \<and> snd (add demo_sdk demo_handle [(''name'', JStr ''x''), (''status'', JUndefined)] []) =
       [E_add (RootColl ''users'')
          [(''name'', JStr ''x''), (''status'', JStr ''inactive''), (''score'', JNum 0),
           (''createdAt'', FV_serverTimestamp)]]"
proof -
  have "applyDefaults demo_handle [(''name'', JStr ''x''), (''status'', JUndefined)] =
          [(''name'', JStr ''x''), (''status'', JStr ''inactive''), (''score'', JNum 0),
           (''createdAt'', FV_serverTimestamp)]"
    by (simp add: applyDefaults_def demo_handle_def demo_schema_def applyDefaults_step_def
          js_get_simps not_inherited obj_set_def)
  then show ?thesis
    by (simp add: add_def Let_def obj_has_simps obj_get_simps demo_handle_def)
qed

text \<open>
  C1, amended: for every handle, payload and field name, \<^verbatim>\<open>applyDefaults\<close> keeps every
  payload value other than \<^verbatim>\<open>undefined\<close> (so \<^verbatim>\<open>null\<close>, \<^verbatim>\<open>false\<close>, \<^verbatim>\<open>0\<close> and the empty string
  are kept); it changes a field only when the payload's value for it is \<^verbatim>\<open>undefined\<close>
  (absent, or present and \<^verbatim>\<open>undefined\<close>) and the schema configures a default for it, and then
  it stores that default (the server-timestamp sentinel for the marker
  \<^verbatim>\<open>'serverTimestamp'\<close>); no property of the payload is dropped; and \<^verbatim>\<open>add\<close> passes the
  result to \<^verbatim>\<open>ref.add\<close> in its one store call.
\<close>

theorem applyDefaults_fills_only_undefined:
  "(obj_get data k \<noteq> JUndefined \<longrightarrow> obj_get (applyDefaults this data) k = obj_get data k)
   \<and> (obj_get (applyDefaults this data) k \<noteq> obj_get data k \<longrightarrow>
        obj_get data k = JUndefined
        \<and> (\<exists>sch fieldDef.
              schema this = Some sch
              \<and> map_of (CollectionSchema.fields sch) k = Some fieldDef
              \<and> defaultValue fieldDef \<noteq> JUndefined
              \<and> obj_get (applyDefaults this data) k =
                  (if defaultValue fieldDef = JStr ''serverTimestamp''
                   then FV_serverTimestamp else defaultValue fieldDef)))
   \<and> (obj_has k data \<longrightarrow> obj_has k (applyDefaults this data))
   \<and> add st this data tr =
       (sdk_add st (ref this) (applyDefaults this data),
        tr @ [E_add (ref this) (applyDefaults this data)])"
proof -
  have 1: "obj_get data k \<noteq> JUndefined \<longrightarrow> obj_get (applyDefaults this data) k = obj_get data k"
    by (auto simp: applyDefaults_get dest: js_get_undefined)
  have 2: "obj_has k data \<longrightarrow> obj_has k (applyDefaults this data)"
    by (simp add: applyDefaults_has)
  have 3: "add st this data tr =
       (sdk_add st (ref this) (applyDefaults this data),
        tr @ [E_add (ref this) (applyDefaults this data)])"
    by (simp add: add_def Let_def)
  from 1 2 3 applyDefaults_changed [of this data k] show ?thesis by blast
qed

theorem applyDefaults_fills_only_undefined_witness:
  "obj_get demo_payload ''status'' \<noteq> JUndefined
   \<and> obj_has ''status'' demo_payload
   \<and> obj_get (applyDefaults demo_handle demo_payload) ''status'' = JNull
   \<and> obj_get (applyDefaults demo_handle demo_payload) ''score'' \<noteq> obj_get demo_payload ''score''
   \<and> obj_get demo_payload ''score'' = JUndefined
   \<and> obj_has ''status'' (applyDefaults demo_handle demo_payload)"
proof -
  have a: "obj_get demo_payload ''status'' \<noteq> JUndefined"
    by (simp add: demo_payload_def obj_get_simps)
  have b: "obj_has ''status'' demo_payload"
    by (simp add: demo_payload_def obj_has_simps)
  have c: "obj_get demo_payload ''status'' = JNull"
    by (simp add: demo_payload_def obj_get_simps)
  have d: "obj_get (applyDefaults demo_handle demo_payload) ''score'' \<noteq> obj_get demo_payload ''score''"
    by (simp add: applyDefaults_get demo_payload_def demo_handle_def demo_schema_def
          installed_def obj_get_simps js_get_simps not_inherited)
  note t = applyDefaults_fills_only_undefined [of demo_payload "''status''" demo_handle demo_sdk "[]"]
  note t' = applyDefaults_fills_only_undefined [of demo_payload "''score''" demo_handle demo_sdk "[]"]
  from t a have e:
    "obj_get (applyDefaults demo_handle demo_payload) ''status'' = obj_get demo_payload ''status''"
    by blast
  from t b have f: "obj_has ''status'' (applyDefaults demo_handle demo_payload)"
    by blast
  from t' d have g: "obj_get demo_payload ''score'' = JUndefined"
    by blast
  from a b c d e f g show ?thesis by simp
qed

text \<open>
  C2, as stated: \<^verbatim>\<open>set\<close> skips the defaults exactly when the options request a merge, that
  is when the merge flag is \<^verbatim>\<open>true\<close> or a \<^verbatim>\<open>mergeFields\<close> list is present. This fails for
  options that have the key \<^verbatim>\<open>mergeFields\<close> without a list: the test of \<^verbatim>\<open>set\<close> is
  \<^verbatim>\<open>'mergeFields' in options\<close>. With the options \<^verbatim>\<open>{mergeFields: undefined}\<close> no merge is
  requested, and still \<^verbatim>\<open>set\<close> writes the payload \<^verbatim>\<open>{score: 5}\<close> without the defaults that
  \<^verbatim>\<open>add\<close> writes for it.
\<close>

theorem set_doc_skips_defaults_without_field_list:
  "\<not> requests_merge (Some [(''mergeFields'', JUndefined)])
   \<and> snd (set_doc demo_sdk demo_handle ''u1'' [(''score'', JNum 5)]
             (Some [(''mergeFields'', JUndefined)]) []) =
       [E_doc (RootColl ''users'') ''u1'',
        E_set (DocRef (RootColl ''users'') ''u1'') [(''score'', JNum 5)]
          [(''mergeFields'', JUndefined)]]
   \<and> snd (add demo_sdk demo_handle [(''score'', JNum 5)] []) =
       [E_add (RootColl ''users'')
          [(''score'', JNum 5), (''status'', JStr ''inactive''),
           (''createdAt'', FV_serverTimestamp)]]"
proof -
  have a: "applyDefaults demo_handle [(''score'', JNum 5)] =
             [(''score'', JNum 5), (''status'', JStr ''inactive''), (''createdAt'', FV_serverTimestamp)]"
    by (simp add: applyDefaults_def demo_handle_def demo_schema_def applyDefaults_step_def
          js_get_simps not_inherited obj_set_def)
  have m: "isMerge (Some [(''mergeFields'', JUndefined)])"
    by (simp add: isMerge_eq obj_has_simps)
  have n: "\<not> requests_merge (Some [(''mergeFields'', JUndefined)])"
    by (simp add: requests_merge_def obj_get_simps)
  have s: "snd (set_doc demo_sdk demo_handle ''u1'' [(''score'', JNum 5)]
             (Some [(''mergeFields'', JUndefined)]) []) =
       [E_doc (RootColl ''users'') ''u1'',
        E_set (DocRef (RootColl ''users'') ''u1'') [(''score'', JNum 5)]
          [(''mergeFields'', JUndefined)]]"
    using m by (simp add: set_doc_def doc_def Let_def demo_handle_def)
  have d: "snd (add demo_sdk demo_handle [(''score'', JNum 5)] []) =
       [E_add (RootColl ''users'')
          [(''score'', JNum 5), (''status'', JStr ''inactive''),
           (''createdAt'', FV_serverTimestamp)]]"
    using a by (simp add: add_def Let_def demo_handle_def)
  from n s d show ?thesis by blast
qed

text \<open>
  C2, amended: for every id, payload and options, \<^verbatim>\<open>set\<close> resolves the document reference
  and makes exactly one \<^verbatim>\<open>docRef.set\<close> call, with the options given (\<^verbatim>\<open>{}\<close> when none are),
  and returns its result; the data written is the payload itself exactly when options are
  given whose merge flag is \<^verbatim>\<open>true\<close> or which have a property \<^verbatim>\<open>mergeFields\<close>, whatever its
  value, and the payload with defaults applied otherwise, which is the data \<^verbatim>\<open>add\<close> writes
  for the same payload. In particular the defaults are skipped whenever the options request
  a merge.
\<close>

theorem set_doc_skips_defaults_on_merge:
  "set_doc st this ident data options tr =
     (sdk_set st (DocRef (ref this) ident)
        (if (case options of
               None \<Rightarrow> False
             | Some opts \<Rightarrow> obj_get opts ''merge'' = JBool True \<or> obj_has ''mergeFields'' opts)
         then data else applyDefaults this data)
        (case options of None \<Rightarrow> [] | Some opts \<Rightarrow> opts),
      tr @ [E_doc (ref this) ident,
            E_set (DocRef (ref this) ident)
              (if (case options of
                     None \<Rightarrow> False
                   | Some opts \<Rightarrow>
                       obj_get opts ''merge'' = JBool True \<or> obj_has ''mergeFields'' opts)
               then data else applyDefaults this data)
              (case options of None \<Rightarrow> [] | Some opts \<Rightarrow> opts)])
   \<and> (requests_merge options \<longrightarrow>
        snd (set_doc st this ident data options tr) =
          tr @ [E_doc (ref this) ident,
                E_set (DocRef (ref this) ident) data
                  (case options of None \<Rightarrow> [] | Some opts \<Rightarrow> opts)])
   \<and> (\<not> (case options of
             None \<Rightarrow> False
           | Some opts \<Rightarrow> obj_get opts ''merge'' = JBool True \<or> obj_has ''mergeFields'' opts)
        \<longrightarrow> (\<exists>written resolved.
               snd (set_doc st this ident data options tr) =
                 tr @ [E_doc (ref this) ident, E_set (DocRef (ref this) ident) written resolved]
               \<and> snd (add st this data tr) = tr @ [E_add (ref this) written]))"
proof -
  let ?m = "case options of
              None \<Rightarrow> False
            | Some opts \<Rightarrow> obj_get opts ''merge'' = JBool True \<or> obj_has ''mergeFields'' opts"
  let ?r = "case options of None \<Rightarrow> [] | Some opts \<Rightarrow> opts"
  have 1: "set_doc st this ident data options tr =
     (sdk_set st (DocRef (ref this) ident) (if ?m then data else applyDefaults this data) ?r,
      tr @ [E_doc (ref this) ident,
            E_set (DocRef (ref this) ident) (if ?m then data else applyDefaults this data) ?r])"
    by (simp add: set_doc_def doc_def Let_def isMerge_eq)
  have 2: "snd (add st this data tr) = tr @ [E_add (ref this) (applyDefaults this data)]"
    by (simp add: add_def Let_def)
  have 3: "requests_merge options \<longrightarrow> ?m"
    using requests_merge_isMerge [of options] by (simp add: isMerge_eq)
  have 4: "requests_merge options \<longrightarrow>
        snd (set_doc st this ident data options tr) =
          tr @ [E_doc (ref this) ident, E_set (DocRef (ref this) ident) data ?r]"
    using 1 3 by simp
  have 5: "\<not> ?m \<longrightarrow> (\<exists>written resolved.
               snd (set_doc st this ident data options tr) =
                 tr @ [E_doc (ref this) ident, E_set (DocRef (ref this) ident) written resolved]
               \<and> snd (add st this data tr) = tr @ [E_add (ref this) written])"
  proof
    assume "\<not> ?m"
    with 1 have "snd (set_doc st this ident data options tr) =
             tr @ [E_doc (ref this) ident,
                   E_set (DocRef (ref this) ident) (applyDefaults this data) ?r]"
      by simp
    with 2 show "\<exists>written resolved.
               snd (set_doc st this ident data options tr) =
                 tr @ [E_doc (ref this) ident, E_set (DocRef (ref this) ident) written resolved]
               \<and> snd (add st this data tr) = tr @ [E_add (ref this) written]"
      by blast
  qed
  from 1 4 5 show ?thesis by blast
qed

theorem set_doc_skips_defaults_on_merge_witness:
  "set_doc demo_sdk demo_handle ''u1'' [(''score'', JNum 5)] (Some [(''merge'', JBool True)]) [] =
     (Resolved [(''writeTime'', JNum 1)],
      [E_doc (RootColl ''users'') ''u1'',
       E_set (DocRef (RootColl ''users'') ''u1'') [(''score'', JNum 5)] [(''merge'', JBool True)]])
   \<and> requests_merge (Some [(''mergeFields'', JArr [JStr ''score''])])
   \<and> snd (set_doc demo_sdk demo_handle ''u1'' [(''score'', JNum 5)]
             (Some [(''mergeFields'', JArr [JStr ''score''])]) []) =
       [E_doc (RootColl ''users'') ''u1'',
        E_set (DocRef (RootColl ''users'') ''u1'') [(''score'', JNum 5)]
          [(''mergeFields'', JArr [JStr ''score''])]]
   \<and> snd (set_doc demo_sdk demo_handle ''u1'' [(''score'', JNum 5)] None []) =
       [E_doc (RootColl ''users'') ''u1'',
        E_set (DocRef (RootColl ''users'') ''u1'')
          [(''score'', JNum 5), (''status'', JStr ''inactive''), (''createdAt'', FV_serverTimestamp)] []]"
proof -
  have m: "requests_merge (Some [(''mergeFields'', JArr [JStr ''score''])])"
    by (simp add: requests_merge_def obj_get_simps)
  have a: "applyDefaults demo_handle [(''score'', JNum 5)] =
             [(''score'', JNum 5), (''status'', JStr ''inactive''), (''createdAt'', FV_serverTimestamp)]"
    by (simp add: applyDefaults_def demo_handle_def demo_schema_def applyDefaults_step_def
          js_get_simps not_inherited obj_set_def)
  have r: "ref demo_handle = RootColl ''users''" by (simp add: demo_handle_def)
  have s: "sdk_set demo_sdk = (\<lambda>d data opts. Resolved [(''writeTime'', JNum 1)])"
    by (simp add: demo_sdk_def)
  note t1 = set_doc_skips_defaults_on_merge
         [of demo_sdk demo_handle "''u1''" "[(''score'', JNum 5)]" "Some [(''merge'', JBool True)]" "[]"]
  note t2 = set_doc_skips_defaults_on_merge
         [of demo_sdk demo_handle "''u1''" "[(''score'', JNum 5)]"
             "Some [(''mergeFields'', JArr [JStr ''score''])]" "[]"]
  note t3 = set_doc_skips_defaults_on_merge
         [of demo_sdk demo_handle "''u1''" "[(''score'', JNum 5)]" None "[]"]
  from t1 r s have c1:
    "set_doc demo_sdk demo_handle ''u1'' [(''score'', JNum 5)] (Some [(''merge'', JBool True)]) [] =
     (Resolved [(''writeTime'', JNum 1)],
      [E_doc (RootColl ''users'') ''u1'',
       E_set (DocRef (RootColl ''users'') ''u1'') [(''score'', JNum 5)] [(''merge'', JBool True)]])"
    by (simp add: obj_get_simps)
  from t2 m r have c2:
    "snd (set_doc demo_sdk demo_handle ''u1'' [(''score'', JNum 5)]
             (Some [(''mergeFields'', JArr [JStr ''score''])]) []) =
       [E_doc (RootColl ''users'') ''u1'',
        E_set (DocRef (RootColl ''users'') ''u1'') [(''score'', JNum 5)]
          [(''mergeFields'', JArr [JStr ''score''])]]"
    by (simp add: obj_get_simps obj_has_simps)
  from t3 a r have c3:
    "snd (set_doc demo_sdk demo_handle ''u1'' [(''score'', JNum 5)] None []) =
       [E_doc (RootColl ''users'') ''u1'',
        E_set (DocRef (RootColl ''users'') ''u1'')
          [(''score'', JNum 5), (''status'', JStr ''inactive''), (''createdAt'', FV_serverTimestamp)] []]"
    by simp
  from m c1 c2 c3 show ?thesis by blast
qed

text \<open>
  C3: for every id, \<^verbatim>\<open>get\<close> resolves with the snapshot's data when the store's snapshot
  exists, resolves with \<^verbatim>\<open>undefined\<close> when the snapshot does not exist, and rejects with
  the store's error only when the store's \<^verbatim>\<open>get\<close> rejects: a missing document is never
  a rejection and a failure is never a resolved value.
\<close>

theorem get_doc_absent_is_undefined:
  "(sdk_get st (DocRef (ref this) ident) = Resolved snapshot \<and> snap_exists snapshot \<longrightarrow>
      get_doc st this ident tr =
        (Resolved (snap_data snapshot),
         tr @ [E_doc (ref this) ident, E_get (DocRef (ref this) ident)]))
   \<and> (sdk_get st (DocRef (ref this) ident) = Resolved snapshot \<and> \<not> snap_exists snapshot \<longrightarrow>
      get_doc st this ident tr =
        (Resolved JUndefined,
         tr @ [E_doc (ref this) ident, E_get (DocRef (ref this) ident)]))
   \<and> (sdk_get st (DocRef (ref this) ident) = Rejected e \<longrightarrow>
      get_doc st this ident tr =
        (Rejected e, tr @ [E_doc (ref this) ident, E_get (DocRef (ref this) ident)]))"
  by (simp add: get_doc_def doc_def Let_def)

theorem get_doc_absent_is_undefined_witness:
  "sdk_get demo_sdk (DocRef (ref demo_handle) ''bob'')
     = Resolved \<lparr>snap_exists = False, snap_data = JUndefined\<rparr>
   \<and> fst (get_doc demo_sdk demo_handle ''bob'' []) = Resolved JUndefined
   \<and> sdk_get demo_sdk (DocRef (ref demo_handle) ''alice'')
     = Resolved \<lparr>snap_exists = True, snap_data = JObj [(''name'', JStr ''x'')]\<rparr>
   \<and> fst (get_doc demo_sdk demo_handle ''alice'' []) = Resolved (JObj [(''name'', JStr ''x'')])
   \<and> sdk_get demo_sdk (DocRef (ref demo_handle) ''down'') = Rejected (SdkError ''unavailable'')
   \<and> fst (get_doc demo_sdk demo_handle ''down'' []) = Rejected (SdkError ''unavailable'')"
proof -
  have a: "sdk_get demo_sdk (DocRef (ref demo_handle) ''bob'')
     = Resolved \<lparr>snap_exists = False, snap_data = JUndefined\<rparr>"
    by (simp add: demo_sdk_def demo_handle_def)
  have b: "sdk_get demo_sdk (DocRef (ref demo_handle) ''alice'')
     = Resolved \<lparr>snap_exists = True, snap_data = JObj [(''name'', JStr ''x'')]\<rparr>"
    by (simp add: demo_sdk_def demo_handle_def)
  have c: "sdk_get demo_sdk (DocRef (ref demo_handle) ''down'') = Rejected (SdkError ''unavailable'')"
    by (simp add: demo_sdk_def demo_handle_def)
  from a get_doc_absent_is_undefined
         [of demo_sdk demo_handle "''bob''" "\<lparr>snap_exists = False, snap_data = JUndefined\<rparr>" "[]"]
  have a': "fst (get_doc demo_sdk demo_handle ''bob'' []) = Resolved JUndefined" by simp
  from b get_doc_absent_is_undefined
         [of demo_sdk demo_handle "''alice''"
             "\<lparr>snap_exists = True, snap_data = JObj [(''name'', JStr ''x'')]\<rparr>" "[]"]
  have b': "fst (get_doc demo_sdk demo_handle ''alice'' []) = Resolved (JObj [(''name'', JStr ''x'')])"
    by simp
  from c get_doc_absent_is_undefined
         [of demo_sdk demo_handle "''down''" _ "[]" "SdkError ''unavailable''"]
  have c': "fst (get_doc demo_sdk demo_handle ''down'' []) = Rejected (SdkError ''unavailable'')"
    by simp
  from a b c a' b' c' show ?thesis by blast
qed

text \<open>
  C4: for every parent id and name, \<^verbatim>\<open>subCollection\<close> throws (a synchronous error, not a
  promise) (a) when the schema or its sub-collection table is missing, or the table has no
  entry for the name, and (b) when the entry has no constructor. The message is spelled
  out: it is the not-found message in case (a), except for a name that the table lacks but
  \<^verbatim>\<open>Object.prototype\<close> has (\<^verbatim>\<open>constructor\<close>, \<^verbatim>\<open>toString\<close>, ...), where it is the class-missing
  message of case (b); either message has the sub-collection name and the collection id
  between apostrophes. In all these cases the log is unchanged, so \<^verbatim>\<open>ref.doc(parentId)\<close> was
  not called.
\<close>

theorem subCollection_configuration_errors:
  "((\<forall>sch. schema this = Some sch \<longrightarrow> subCollections sch = None)
      \<longrightarrow> subCollection this parentId subCollectionId SubCollectionClass subSchema tr =
          (Inl (Error (''Sub-collection '' @ [CHR 0x27] @ subCollectionId @ [CHR 0x27]
                        @ '' not found in schema for collection ''
                        @ [CHR 0x27] @ collref_id (ref this) @ [CHR 0x27])),
           tr))
   \<and> (schema this = Some sch \<and> subCollections sch = Some tbl
        \<and> map_of tbl subCollectionId = None
        \<and> subCollectionId \<notin> set Object_prototype_names
      \<longrightarrow> subCollection this parentId subCollectionId SubCollectionClass subSchema tr =
          (Inl (Error (''Sub-collection '' @ [CHR 0x27] @ subCollectionId @ [CHR 0x27]
                        @ '' not found in schema for collection ''
                        @ [CHR 0x27] @ collref_id (ref this) @ [CHR 0x27])),
           tr))
   \<and> (schema this = Some sch \<and> subCollections sch = Some tbl
        \<and> map_of tbl subCollectionId = None
        \<and> subCollectionId \<in> set Object_prototype_names
      \<longrightarrow> subCollection this parentId subCollectionId SubCollectionClass subSchema tr =
          (Inl (Error (''Collection class definition missing for sub-collection ''
                        @ [CHR 0x27] @ subCollectionId @ [CHR 0x27]
                        @ '' in schema for collection ''
                        @ [CHR 0x27] @ collref_id (ref this) @ [CHR 0x27])),
           tr))
   \<and> (schema this = Some sch \<and> subCollections sch = Some tbl
        \<and> map_of tbl subCollectionId = Some subCollectionDef
        \<and> collectionClass subCollectionDef = None
      \<longrightarrow> subCollection this parentId subCollectionId SubCollectionClass subSchema tr =
          (Inl (Error (''Collection class definition missing for sub-collection ''
                        @ [CHR 0x27] @ subCollectionId @ [CHR 0x27]
                        @ '' in schema for collection ''
                        @ [CHR 0x27] @ collref_id (ref this) @ [CHR 0x27])),
           tr))"
proof (intro conjI impI)
  assume a: "\<forall>sch. schema this = Some sch \<longrightarrow> subCollections sch = None"
  have "subCollectionDef_of this subCollectionId = Missing"
  proof (cases "schema this")
    case None
    then show ?thesis by (simp add: subCollectionDef_of_def)
  next
    case (Some s)
    with a have "subCollections s = None" by blast
    with Some show ?thesis by (simp add: subCollectionDef_of_def)
  qed
  then show "subCollection this parentId subCollectionId SubCollectionClass subSchema tr =
          (Inl (Error (''Sub-collection '' @ [CHR 0x27] @ subCollectionId @ [CHR 0x27]
                        @ '' not found in schema for collection ''
                        @ [CHR 0x27] @ collref_id (ref this) @ [CHR 0x27])),
           tr)"
    by (simp add: subCollection_Missing not_found_message_def)
next
  assume b: "schema this = Some sch \<and> subCollections sch = Some tbl
        \<and> map_of tbl subCollectionId = None
        \<and> subCollectionId \<notin> set Object_prototype_names"
  then have "subCollectionDef_of this subCollectionId = Missing"
    by (simp add: subCollectionDef_of_def js_lookup_def)
  then show "subCollection this parentId subCollectionId SubCollectionClass subSchema tr =
          (Inl (Error (''Sub-collection '' @ [CHR 0x27] @ subCollectionId @ [CHR 0x27]
                        @ '' not found in schema for collection ''
                        @ [CHR 0x27] @ collref_id (ref this) @ [CHR 0x27])),
           tr)"
    by (simp add: subCollection_Missing not_found_message_def)
next
  assume c: "schema this = Some sch \<and> subCollections sch = Some tbl
        \<and> map_of tbl subCollectionId = None
        \<and> subCollectionId \<in> set Object_prototype_names"
  then have "subCollectionDef_of this subCollectionId = Inherited subCollectionId"
    by (simp add: subCollectionDef_of_def js_lookup_def)
  then show "subCollection this parentId subCollectionId SubCollectionClass subSchema tr =
          (Inl (Error (''Collection class definition missing for sub-collection ''
                        @ [CHR 0x27] @ subCollectionId @ [CHR 0x27]
                        @ '' in schema for collection ''
                        @ [CHR 0x27] @ collref_id (ref this) @ [CHR 0x27])),
           tr)"
    by (simp add: subCollection_Inherited class_missing_message_def)
next
  assume d: "schema this = Some sch \<and> subCollections sch = Some tbl
        \<and> map_of tbl subCollectionId = Some subCollectionDef
        \<and> collectionClass subCollectionDef = None"
  then have "subCollectionDef_of this subCollectionId = Own subCollectionDef"
    by (simp add: subCollectionDef_of_def js_lookup_def)
  with d show "subCollection this parentId subCollectionId SubCollectionClass subSchema tr =
          (Inl (Error (''Collection class definition missing for sub-collection ''
                        @ [CHR 0x27] @ subCollectionId @ [CHR 0x27]
                        @ '' in schema for collection ''
                        @ [CHR 0x27] @ collref_id (ref this) @ [CHR 0x27])),
           tr)"
    by (simp add: subCollection_Own class_missing_message_def)
qed

theorem subCollection_configuration_errors_witness:
  "subCollection demo_proto_handle ''n1'' ''comments'' (Ctor ''CommentsCollection'') None [] =
       (Inl (Error (''Sub-collection 'comments' not found in schema for collection 'notes''
                      @ [CHR 0x27])), [])
   \<and> subCollection demo_handle ''u1'' ''comments'' (Ctor ''CommentsCollection'') None [] =
       (Inl (Error (''Sub-collection 'comments' not found in schema for collection 'users''
                      @ [CHR 0x27])), [])
   \<and> subCollection demo_handle ''u1'' ''constructor'' (Ctor ''CommentsCollection'') None [] =
       (Inl (Error (''Collection class definition missing for sub-collection 'constructor' in schema for collection 'users''
                      @ [CHR 0x27])), [])
   \<and> subCollection demo_handle ''u1'' ''drafts'' (Ctor ''DraftsCollection'') None [] =
       (Inl (Error (''Collection class definition missing for sub-collection 'drafts' in schema for collection 'users''
                      @ [CHR 0x27])), [])"
proof -
  let ?tbl = "[(''posts'', SubCollectionDef None (Some (Ctor ''PostsCollection''))),
               (''drafts'', SubCollectionDef None None)]"
  have a: "\<forall>sch. schema demo_proto_handle = Some sch \<longrightarrow> subCollections sch = None"
    by (simp add: demo_proto_handle_def demo_proto_schema_def)
  have b: "schema demo_handle = Some demo_schema \<and> subCollections demo_schema = Some ?tbl
        \<and> map_of ?tbl ''comments'' = None \<and> ''comments'' \<notin> set Object_prototype_names"
    by (simp add: demo_table not_inherited)
  have c: "schema demo_handle = Some demo_schema \<and> subCollections demo_schema = Some ?tbl
        \<and> map_of ?tbl ''constructor'' = None \<and> ''constructor'' \<in> set Object_prototype_names"
    by (simp add: demo_table inherited)
  have d: "schema demo_handle = Some demo_schema \<and> subCollections demo_schema = Some ?tbl
        \<and> map_of ?tbl ''drafts'' = Some (SubCollectionDef None None)
        \<and> collectionClass (SubCollectionDef None None) = None"
    by (simp add: demo_table)
  have r: "collref_id (ref demo_handle) = ''users''" "collref_id (ref demo_proto_handle) = ''notes''"
    by (simp_all add: demo_handle_def demo_proto_handle_def)
  note t1 = subCollection_configuration_errors
              [of demo_proto_handle "''n1''" "''comments''" "Ctor ''CommentsCollection''" None "[]"]
  note t2 = subCollection_configuration_errors
              [of demo_handle "''u1''" "''comments''" "Ctor ''CommentsCollection''" None "[]"
                  demo_schema ?tbl]
  note t3 = subCollection_configuration_errors
              [of demo_handle "''u1''" "''constructor''" "Ctor ''CommentsCollection''" None "[]"
                  demo_schema ?tbl]
  note t4 = subCollection_configuration_errors
              [of demo_handle "''u1''" "''drafts''" "Ctor ''DraftsCollection''" None "[]"
                  demo_schema ?tbl "SubCollectionDef None None"]
  from t1 a have e1:
    "subCollection demo_proto_handle ''n1'' ''comments'' (Ctor ''CommentsCollection'') None [] =
       (Inl (Error (''Sub-collection '' @ [CHR 0x27] @ ''comments'' @ [CHR 0x27]
                      @ '' not found in schema for collection ''
                      @ [CHR 0x27] @ collref_id (ref demo_proto_handle) @ [CHR 0x27])), [])"
    by blast
  from t2 b have e2:
    "subCollection demo_handle ''u1'' ''comments'' (Ctor ''CommentsCollection'') None [] =
       (Inl (Error (''Sub-collection '' @ [CHR 0x27] @ ''comments'' @ [CHR 0x27]
                      @ '' not found in schema for collection ''
                      @ [CHR 0x27] @ collref_id (ref demo_handle) @ [CHR 0x27])), [])"
    by blast
  from t3 c have e3:
    "subCollection demo_handle ''u1'' ''constructor'' (Ctor ''CommentsCollection'') None [] =
       (Inl (Error (''Collection class definition missing for sub-collection ''
                      @ [CHR 0x27] @ ''constructor'' @ [CHR 0x27]
                      @ '' in schema for collection ''
                      @ [CHR 0x27] @ collref_id (ref demo_handle) @ [CHR 0x27])), [])"
    by blast
  from t4 d have e4:
    "subCollection demo_handle ''u1'' ''drafts'' (Ctor ''DraftsCollection'') None [] =
       (Inl (Error (''Collection class definition missing for sub-collection ''
                      @ [CHR 0x27] @ ''drafts'' @ [CHR 0x27]
                      @ '' in schema for collection ''
                      @ [CHR 0x27] @ collref_id (ref demo_handle) @ [CHR 0x27])), [])"
    by blast
  from e1 e2 e3 e4 r show ?thesis by simp
qed

text \<open>
  C9: when the table has an entry with a constructor for the name, \<^verbatim>\<open>subCollection\<close>
  instantiates that constructor, whatever the \<^verbatim>\<open>SubCollectionClass\<close> and \<^verbatim>\<open>subSchema\<close>
  arguments are, with the handle's firestore instance, the sub-collection id, the schema
  of the table entry and the reference of the parent document, which it resolves with one
  \<^verbatim>\<open>ref.doc(parentId)\<close> call.
\<close>

theorem subCollection_uses_registered_class:
  "schema this = Some sch \<and> subCollections sch = Some tbl
     \<and> map_of tbl subCollectionId = Some subCollectionDef
     \<and> collectionClass subCollectionDef = Some ResolvedSubCollectionClass
   \<longrightarrow> subCollection this parentId subCollectionId SubCollectionClass subSchema tr =
         (Inr \<lparr>new_class = ResolvedSubCollectionClass,
               new_firestore = firestore this,
               new_collectionId = subCollectionId,
               new_schema = sub_schema subCollectionDef,
               new_parentRef = DocRef (ref this) parentId\<rparr>,
          tr @ [E_doc (ref this) parentId])"
proof
  assume b: "schema this = Some sch \<and> subCollections sch = Some tbl
     \<and> map_of tbl subCollectionId = Some subCollectionDef
     \<and> collectionClass subCollectionDef = Some ResolvedSubCollectionClass"
  then have "subCollectionDef_of this subCollectionId = Own subCollectionDef"
    by (simp add: subCollectionDef_of_def js_lookup_def)
  with b show "subCollection this parentId subCollectionId SubCollectionClass subSchema tr =
         (Inr \<lparr>new_class = ResolvedSubCollectionClass,
               new_firestore = firestore this,
               new_collectionId = subCollectionId,
               new_schema = sub_schema subCollectionDef,
               new_parentRef = DocRef (ref this) parentId\<rparr>,
          tr @ [E_doc (ref this) parentId])"
    by (simp add: subCollection_Own)
qed

theorem subCollection_uses_registered_class_witness:
  "schema demo_handle = Some demo_schema
   \<and> map_of [(''posts'', SubCollectionDef None (Some (Ctor ''PostsCollection''))),
             (''drafts'', SubCollectionDef None None)] ''posts''
       = Some (SubCollectionDef None (Some (Ctor ''PostsCollection'')))
   \<and> subCollection demo_handle ''u1'' ''posts'' (Ctor ''SomeOtherClass'')
        (Some (CollectionSchema [] None)) [] =
       (Inr \<lparr>new_class = Ctor ''PostsCollection'',
             new_firestore = Firestore ''demo'',
             new_collectionId = ''posts'',
             new_schema = None,
             new_parentRef = DocRef (RootColl ''users'') ''u1''\<rparr>,
        [E_doc (RootColl ''users'') ''u1''])"
proof -
  have b: "schema demo_handle = Some demo_schema
        \<and> subCollections demo_schema =
            Some [(''posts'', SubCollectionDef None (Some (Ctor ''PostsCollection''))),
                  (''drafts'', SubCollectionDef None None)]
        \<and> map_of [(''posts'', SubCollectionDef None (Some (Ctor ''PostsCollection''))),
                  (''drafts'', SubCollectionDef None None)] ''posts''
            = Some (SubCollectionDef None (Some (Ctor ''PostsCollection'')))
        \<and> collectionClass (SubCollectionDef None (Some (Ctor ''PostsCollection'')))
            = Some (Ctor ''PostsCollection'')"
    by (simp add: demo_table)
  have r: "ref demo_handle = RootColl ''users''" "firestore demo_handle = Firestore ''demo''"
    by (simp_all add: demo_handle_def)
  note t = subCollection_uses_registered_class
             [of demo_handle demo_schema
                 "[(''posts'', SubCollectionDef None (Some (Ctor ''PostsCollection''))),
                   (''drafts'', SubCollectionDef None None)]"
                 "''posts''" "SubCollectionDef None (Some (Ctor ''PostsCollection''))"
                 "Ctor ''PostsCollection''" "''u1''" "Ctor ''SomeOtherClass''"
                 "Some (CollectionSchema [] None)" "[]"]
  from t b r show ?thesis by simp
qed




section \<open>The builders\<close>

text \<open>
  C5: for every query builder and every constraint-adding call on it, and for every update
  builder and every operation-adding call on it, the call returns a builder at a new
  address; the object at the original address is unchanged, as is every other allocated
  object; the new object is the original with one descriptor appended (one path set in the
  update map); and the original still builds the same query (commits the same update).
\<close>

theorem builders_are_immutable:
  "(heap_lookup h b = Some self \<longrightarrow>
      (\<exists>b2 h2 d.
         call_query_method h b c = Some (b2, h2) \<and> b2 \<noteq> b
         \<and> heap_lookup h2 b = Some self
         \<and> heap_lookup h2 b2 =
             Some (self\<lparr>constraintDefinitions := constraintDefinitions self @ [d]\<rparr>)
         \<and> (\<forall>a. a < length h \<longrightarrow> heap_lookup h2 a = heap_lookup h a)
         \<and> buildQuery h2 b = buildQuery h b))
   \<and> (heap_lookup uh ub = Some uself \<longrightarrow>
      (\<exists>ub2 uh2 p v.
         call_update_method uh ub uc = Some (ub2, uh2) \<and> ub2 \<noteq> ub
         \<and> heap_lookup uh2 ub = Some uself
         \<and> heap_lookup uh2 ub2 =
             Some (uself\<lparr>p_updateData := obj_set (p_updateData uself) p v\<rparr>)
         \<and> (\<forall>a. a < length uh \<longrightarrow> heap_lookup uh2 a = heap_lookup uh a)
         \<and> commit st uh2 ub tr = commit st uh ub tr))"
proof (intro conjI impI)
  assume a: "heap_lookup h b = Some self"
  let ?new = "self\<lparr>constraintDefinitions := constraintDefinitions self @ [definition_of c]\<rparr>"
  have lt: "b < length h" using a by (rule heap_lookup_valid)
  have 1: "call_query_method h b c = Some (length h, h @ [?new])"
    using a by (simp add: call_query_method_eq addConstraintDefinition_Some)
  have 2: "length h \<noteq> b" using lt by simp
  have 3: "heap_lookup (h @ [?new]) b = Some self"
    using a lt by (simp add: heap_lookup_append)
  have 4: "heap_lookup (h @ [?new]) (length h) = Some ?new"
    by (simp add: heap_lookup_append)
  have 5: "\<forall>a. a < length h \<longrightarrow> heap_lookup (h @ [?new]) a = heap_lookup h a"
    by (simp add: heap_lookup_append)
  have 6: "buildQuery (h @ [?new]) b = buildQuery h b"
    using a 3 by (simp add: buildQuery_def)
  from 1 2 3 4 5 6 show "\<exists>b2 h2 d.
         call_query_method h b c = Some (b2, h2) \<and> b2 \<noteq> b
         \<and> heap_lookup h2 b = Some self
         \<and> heap_lookup h2 b2 =
             Some (self\<lparr>constraintDefinitions := constraintDefinitions self @ [d]\<rparr>)
         \<and> (\<forall>a. a < length h \<longrightarrow> heap_lookup h2 a = heap_lookup h a)
         \<and> buildQuery h2 b = buildQuery h b"
    by blast
next
  assume a: "heap_lookup uh ub = Some uself"
  let ?new = "uself\<lparr>p_updateData := obj_set (p_updateData uself) (path_of uc) (recorded_value uc)\<rparr>"
  have lt: "ub < length uh" using a by (rule heap_lookup_valid)
  have 1: "call_update_method uh ub uc = Some (length uh, uh @ [?new])"
    using a by (simp add: call_update_method_eq p_set_Some)
  have 2: "length uh \<noteq> ub" using lt by simp
  have 3: "heap_lookup (uh @ [?new]) ub = Some uself"
    using a lt by (simp add: heap_lookup_append)
  have 4: "heap_lookup (uh @ [?new]) (length uh) = Some ?new"
    by (simp add: heap_lookup_append)
  have 5: "\<forall>a. a < length uh \<longrightarrow> heap_lookup (uh @ [?new]) a = heap_lookup uh a"
    by (simp add: heap_lookup_append)
  have 6: "commit st (uh @ [?new]) ub tr = commit st uh ub tr"
    using a 3 by (simp add: commit_def)
  from 1 2 3 4 5 6 show "\<exists>ub2 uh2 p v.
         call_update_method uh ub uc = Some (ub2, uh2) \<and> ub2 \<noteq> ub
         \<and> heap_lookup uh2 ub = Some uself
         \<and> heap_lookup uh2 ub2 =
             Some (uself\<lparr>p_updateData := obj_set (p_updateData uself) p v\<rparr>)
         \<and> (\<forall>a. a < length uh \<longrightarrow> heap_lookup uh2 a = heap_lookup uh a)
         \<and> commit st uh2 ub tr = commit st uh ub tr"
    by blast
qed

theorem builders_are_immutable_witness:
  "heap_lookup [demo_query_builder] 0 = Some demo_query_builder
   \<and> (\<exists>b2 h2. call_query_method [demo_query_builder] 0 (Call_limit 5) = Some (b2, h2)
         \<and> b2 \<noteq> 0 \<and> heap_lookup h2 0 = Some demo_query_builder)
   \<and> heap_lookup [demo_update_builder] 0 = Some demo_update_builder
   \<and> (\<exists>ub2 uh2. call_update_method [demo_update_builder] 0 (Call_set ''count'' (JNum 2))
                    = Some (ub2, uh2)
         \<and> ub2 \<noteq> 0 \<and> heap_lookup uh2 0 = Some demo_update_builder)"
proof -
  have a: "heap_lookup [demo_query_builder] 0 = Some demo_query_builder"
    by (simp add: heap_lookup_def)
  have b: "heap_lookup [demo_update_builder] 0 = Some demo_update_builder"
    by (simp add: heap_lookup_def)
  note t = builders_are_immutable
             [of "[demo_query_builder]" 0 demo_query_builder "Call_limit 5"
                 "[demo_update_builder]" 0 demo_update_builder "Call_set ''count'' (JNum 2)"
                 demo_sdk "[]"]
  from t a have c: "\<exists>b2 h2. call_query_method [demo_query_builder] 0 (Call_limit 5) = Some (b2, h2)
         \<and> b2 \<noteq> 0 \<and> heap_lookup h2 0 = Some demo_query_builder"
    by blast
  from t b have d: "\<exists>ub2 uh2. call_update_method [demo_update_builder] 0 (Call_set ''count'' (JNum 2))
                    = Some (ub2, uh2)
         \<and> ub2 \<noteq> 0 \<and> heap_lookup uh2 0 = Some demo_update_builder"
    by blast
  from a b c d show ?thesis by blast
qed

text \<open>
  C6: for every sequence of constraint-adding calls made on a new query builder, the chain
  returns a builder, and \<^verbatim>\<open>buildQuery\<close> on it starts from the collection reference and
  makes, in the order of the calls, the native call of the same kind with the same
  arguments for each of them, and no other.
\<close>

theorem buildQuery_replays_in_order:
  "\<exists>b' h'.
     query_chain (snd (new_AdminBaseQueryBuilder h fs cref))
                 (fst (new_AdminBaseQueryBuilder h fs cref)) calls = Some (b', h')
     \<and> buildQuery h' b' = Some \<lparr>q_source = cref, q_calls = map expected_native_call calls\<rparr>"
proof -
  let ?self = "\<lparr>qb_firestore = fs, collectionRef = cref, constraintDefinitions = []\<rparr>"
  have new: "new_AdminBaseQueryBuilder h fs cref = (length h, h @ [?self])"
    by (simp add: new_AdminBaseQueryBuilder_def heap_alloc_def)
  have "heap_lookup (h @ [?self]) (length h) = Some ?self"
    by (simp add: heap_lookup_append)
  from query_chain_result [OF this, of calls] obtain b' h' where
    ch: "query_chain (h @ [?self]) (length h) calls = Some (b', h')" and
    lk: "heap_lookup h' b' =
           Some (?self\<lparr>constraintDefinitions := constraintDefinitions ?self @ map definition_of calls\<rparr>)"
    by blast
  from lk have "buildQuery h' b' = Some \<lparr>q_source = cref, q_calls = map expected_native_call calls\<rparr>"
    by (simp add: buildQuery_def replay)
  with ch new show ?thesis by simp
qed

theorem buildQuery_replays_in_order_witness:
  "\<exists>b' h'.
     query_chain (snd (new_AdminBaseQueryBuilder [] (Firestore ''demo'') (RootColl ''users'')))
                 (fst (new_AdminBaseQueryBuilder [] (Firestore ''demo'') (RootColl ''users'')))
       [Call_where (FP_string ''age'') Op_ge (JNum 18),
        Call_orderBy (FP_string ''age'') None,
        Call_limit 5,
        Call_startAfter (ValueAnchor (JNum 30)) []] = Some (b', h')
     \<and> buildQuery h' b' =
         Some \<lparr>q_source = RootColl ''users'',
               q_calls = [N_where (FP_string ''age'') Op_ge (JNum 18),
                          N_orderBy (FP_string ''age'') Asc,
                          N_limit 5,
                          N_startAfter (ValueAnchor (JNum 30)) []]\<rparr>"
  using buildQuery_replays_in_order
          [of "[]" "Firestore ''demo''" "RootColl ''users''"
              "[Call_where (FP_string ''age'') Op_ge (JNum 18),
                Call_orderBy (FP_string ''age'') None,
                Call_limit 5,
                Call_startAfter (ValueAnchor (JNum 30)) []]"]
  by simp

text \<open>
  C7: for every sequence of operation-adding calls made on a new update builder, the chain
  returns a builder whose update map has exactly one entry for each field path written and
  no other entry; the entry of a path holds the value or sentinel of the last call on that
  path; and, when at least one call was made, \<^verbatim>\<open>commit\<close> passes exactly this map to the
  document's \<^verbatim>\<open>update\<close>.
\<close>

theorem last_write_wins:
  "\<exists>b' h' upd.
     update_chain (snd (new_AdminBaseUpdateBuilder h docRef))
                  (fst (new_AdminBaseUpdateBuilder h docRef)) calls = Some (b', h')
     \<and> heap_lookup h' b' = Some \<lparr>p_docRef = docRef, p_updateData = upd\<rparr>
     \<and> distinct (map fst upd)
     \<and> set (map fst upd) = path_of ` set calls
     \<and> (\<forall>pre c post.
           calls = pre @ c # post \<and> (\<forall>c' \<in> set post. path_of c' \<noteq> path_of c)
           \<longrightarrow> map_of upd (path_of c) = Some (recorded_value c))
     \<and> (calls \<noteq> [] \<longrightarrow>
           commit st h' b' tr = Some (sdk_update st docRef upd, tr @ [E_update docRef upd]))"
proof -
  let ?self = "\<lparr>p_docRef = docRef, p_updateData = []\<rparr>"
  let ?upd = "foldl record_op [] calls"
  have new: "new_AdminBaseUpdateBuilder h docRef = (length h, h @ [?self])"
    by (simp add: new_AdminBaseUpdateBuilder_def heap_alloc_def)
  have "heap_lookup (h @ [?self]) (length h) = Some ?self"
    by (simp add: heap_lookup_append)
  from update_chain_result [OF this, of calls] obtain b' h' where
    ch: "update_chain (h @ [?self]) (length h) calls = Some (b', h')" and
    lk: "heap_lookup h' b' = Some \<lparr>p_docRef = docRef, p_updateData = ?upd\<rparr>"
    by auto
  have d: "distinct (map fst ?upd)" by (simp add: record_ops_distinct)
  have k: "set (map fst ?upd) = path_of ` set calls"
    using record_ops_keys [of "[]" calls] by simp
  have l: "\<forall>pre c post.
           calls = pre @ c # post \<and> (\<forall>c' \<in> set post. path_of c' \<noteq> path_of c)
           \<longrightarrow> map_of ?upd (path_of c) = Some (recorded_value c)"
    using record_ops_last by blast
  have "calls \<noteq> [] \<longrightarrow> ?upd \<noteq> []"
    using k by (cases calls) auto
  with lk have c: "calls \<noteq> [] \<longrightarrow>
           commit st h' b' tr = Some (sdk_update st docRef ?upd, tr @ [E_update docRef ?upd])"
    by (simp add: commit_Some)
  from ch lk d k l c have "\<exists>b' h' upd.
     update_chain (h @ [?self]) (length h) calls = Some (b', h')
     \<and> heap_lookup h' b' = Some \<lparr>p_docRef = docRef, p_updateData = upd\<rparr>
     \<and> distinct (map fst upd)
     \<and> set (map fst upd) = path_of ` set calls
     \<and> (\<forall>pre c post.
           calls = pre @ c # post \<and> (\<forall>c' \<in> set post. path_of c' \<noteq> path_of c)
           \<longrightarrow> map_of upd (path_of c) = Some (recorded_value c))
     \<and> (calls \<noteq> [] \<longrightarrow>
           commit st h' b' tr = Some (sdk_update st docRef upd, tr @ [E_update docRef upd]))"
    by blast
  then show ?thesis by (simp only: new fst_conv snd_conv)
qed

theorem last_write_wins_witness:
  "\<exists>b' h' upd.
     update_chain (snd (new_AdminBaseUpdateBuilder [] (DocRef (RootColl ''users'') ''u1'')))
                  (fst (new_AdminBaseUpdateBuilder [] (DocRef (RootColl ''users'') ''u1'')))
       [Call_increment ''count'' 1, Call_increment ''count'' 2] = Some (b', h')
     \<and> heap_lookup h' b' = Some \<lparr>p_docRef = DocRef (RootColl ''users'') ''u1'', p_updateData = upd\<rparr>
     \<and> map_of upd ''count'' = Some (FV_increment 2)
     \<and> length upd = 1
     \<and> commit demo_sdk h' b' [] =
         Some (sdk_update demo_sdk (DocRef (RootColl ''users'') ''u1'') upd,
               [E_update (DocRef (RootColl ''users'') ''u1'') upd])"
proof -
  let ?calls = "[Call_increment ''count'' 1, Call_increment ''count'' 2]"
  let ?d = "DocRef (RootColl ''users'') ''u1''"
  from last_write_wins [of "[]" ?d ?calls demo_sdk "[]"]
  obtain b' h' upd where
    ch: "update_chain (snd (new_AdminBaseUpdateBuilder [] ?d))
                      (fst (new_AdminBaseUpdateBuilder [] ?d)) ?calls = Some (b', h')" and
    lk: "heap_lookup h' b' = Some \<lparr>p_docRef = ?d, p_updateData = upd\<rparr>" and
    di: "distinct (map fst upd)" and
    ks: "set (map fst upd) = path_of ` set ?calls" and
    lw: "\<forall>pre c post.
           ?calls = pre @ c # post \<and> (\<forall>c' \<in> set post. path_of c' \<noteq> path_of c)
           \<longrightarrow> map_of upd (path_of c) = Some (recorded_value c)" and
    co: "?calls \<noteq> [] \<longrightarrow>
           commit demo_sdk h' b' [] = Some (sdk_update demo_sdk ?d upd, [] @ [E_update ?d upd])"
    by blast
  have split: "?calls = [Call_increment ''count'' 1] @ Call_increment ''count'' 2 # []
        \<and> (\<forall>c' \<in> set []. path_of c' \<noteq> path_of (Call_increment ''count'' 2))"
    by simp
  from lw split have "map_of upd (path_of (Call_increment ''count'' 2))
                        = Some (recorded_value (Call_increment ''count'' 2))"
    by blast
  then have v: "map_of upd ''count'' = Some (FV_increment 2)" by simp
  from ks have "set (map fst upd) = {''count''}" by simp
  with di have "length (map fst upd) = card {''count''}"
    using distinct_card [of "map fst upd"] by simp
  then have n: "length upd = 1" by simp
  from co have c: "commit demo_sdk h' b' [] = Some (sdk_update demo_sdk ?d upd, [E_update ?d upd])"
    by simp
  from ch lk v n c show ?thesis by blast
qed

text \<open>
  C8: \<^verbatim>\<open>commit\<close> on a builder whose update map is empty resolves with the placeholder
  \<^verbatim>\<open>{}\<close> and adds no \<^verbatim>\<open>update\<close> call to the log; on a builder whose map is not empty it
  adds exactly one \<^verbatim>\<open>update\<close> call, on the builder's document reference with the whole map,
  and returns what that call returns.
\<close>

theorem commit_noop_when_empty:
  "heap_lookup h b = Some self \<longrightarrow>
     (p_updateData self = [] \<longrightarrow>
        (\<exists>tr'. commit st h b tr = Some (Resolved [], tr') \<and> update_calls tr' = update_calls tr))
     \<and> (p_updateData self \<noteq> [] \<longrightarrow>
        commit st h b tr =
          Some (sdk_update st (p_docRef self) (p_updateData self),
                tr @ [E_update (p_docRef self) (p_updateData self)])
        \<and> update_calls (tr @ [E_update (p_docRef self) (p_updateData self)]) =
            update_calls tr @ [(p_docRef self, p_updateData self)])"
  by (simp add: commit_Some update_calls_append update_calls_single)

theorem commit_noop_when_empty_witness:
  "heap_lookup [demo_empty_update_builder, demo_update_builder] 0 = Some demo_empty_update_builder
   \<and> p_updateData demo_empty_update_builder = []
   \<and> (\<exists>tr'. commit demo_sdk [demo_empty_update_builder, demo_update_builder] 0 [] =
               Some (Resolved [], tr') \<and> update_calls tr' = update_calls [])
   \<and> heap_lookup [demo_empty_update_builder, demo_update_builder] 1 = Some demo_update_builder
   \<and> p_updateData demo_update_builder \<noteq> []
   \<and> commit demo_sdk [demo_empty_update_builder, demo_update_builder] 1 [] =
       Some (Resolved [(''writeTime'', JNum 1)],
             [E_update (DocRef (RootColl ''users'') ''u1'') [(''count'', JNum 1)]])"
proof -
  let ?h = "[demo_empty_update_builder, demo_update_builder]"
  have a: "heap_lookup ?h 0 = Some demo_empty_update_builder"
    by (simp add: heap_lookup_def)
  have b: "p_updateData demo_empty_update_builder = []"
    by (simp add: demo_empty_update_builder_def)
  have c: "heap_lookup ?h 1 = Some demo_update_builder"
    by (simp add: heap_lookup_def)
  have d: "p_updateData demo_update_builder \<noteq> []"
    by (simp add: demo_update_builder_def)
  have e: "p_updateData demo_update_builder = [(''count'', JNum 1)]"
          "p_docRef demo_update_builder = DocRef (RootColl ''users'') ''u1''"
          "sdk_update demo_sdk = (\<lambda>d data. Resolved [(''writeTime'', JNum 1)])"
    by (simp_all add: demo_update_builder_def demo_sdk_def)
  from commit_noop_when_empty [of ?h 0 demo_empty_update_builder demo_sdk "[]"] a b
  have f: "\<exists>tr'. commit demo_sdk ?h 0 [] = Some (Resolved [], tr')
             \<and> update_calls tr' = update_calls []"
    by blast
  from commit_noop_when_empty [of ?h 1 demo_update_builder demo_sdk "[]"] c d
  have "commit demo_sdk ?h 1 [] =
          Some (sdk_update demo_sdk (p_docRef demo_update_builder) (p_updateData demo_update_builder),
                [] @ [E_update (p_docRef demo_update_builder) (p_updateData demo_update_builder)])"
    by blast
  with e have g: "commit demo_sdk ?h 1 [] =
       Some (Resolved [(''writeTime'', JNum 1)],
             [E_update (DocRef (RootColl ''users'') ''u1'') [(''count'', JNum 1)]])"
    by simp
  from a b c d f g show ?thesis by blast
qed

end
